theory Spec2Isabelle
  imports Complex_Main "HOL-Library.Word" "HOL-Library.AList" "HOL-Library.Signed_Division"
begin

section \<open>Dispatch solver: DDAAgent\<close>

text \<open>
  The solver keeps its vectors in C arrays \<open>double x[3]\<close>; an array is modelled as a
  function from the index to the entry and the fixed loops \<open>for (i = 0; i < 3; i++)\<close> as
  a fold of the loop body over \<open>[0, 1, 2]\<close>. A \<open>double\<close> is modelled as a real number:
  rounding is not part of the model, and every concrete input below uses dyadic values on
  which the double operations are exact. The class declaration (DispatchAlgo.hpp) is not
  among the sources; the iteration counter is given the width of the message field it is
  compared with (an unsigned 32-bit integer) and the neighbour counter is a C \<open>int\<close>
  (unbounded here: it stays between 0 and the degree of the node).
\<close>

definition P_max_grid :: real where "P_max_grid = 20"
definition P_min_grid :: real where "P_min_grid = 0"
definition P_max_desd :: real where "P_max_desd = 5"
definition P_min_desd :: real where "P_min_desd = - 5"
definition eta :: real where "eta = 1 / 2"
definition rho :: real where "rho = 3 / 2"
definition inner_iter :: nat where "inner_iter = 5"
definition E_init :: "nat \<Rightarrow> real" where "E_init i = [1, 3 / 2, 1 / 2] ! i"
definition E_full :: "nat \<Rightarrow> real" where "E_full i = [5, 10, 5] ! i"
definition price_profile :: "nat \<Rightarrow> real" where
  "price_profile i = [527 / 100, 15599 / 1000, 15599 / 1000] ! i"
definition delta_time :: int where "delta_time = 15"

record DesdStateMessage =
  iteration :: "32 word"
  symbol :: string
  deltapstep1 :: real
  deltapstep2 :: real
  deltapstep3 :: real
  lambdastep1 :: real
  lambdastep2 :: real
  lambdastep3 :: real

text \<open>
  \<open>m_localadj\<close> is a \<open>std::set\<close> of vertex symbols: the list holds its elements once
  each, in the order the set is iterated. \<open>outbox\<close> collects what \<open>peer.Send\<close> is
  handed, with the uuid of the receiver.
\<close>

record DDAAgent =
  m_iteration :: "32 word"
  m_localsymbol :: string
  m_localadj :: "string list"
  m_strans :: "string \<rightharpoonup> string"
  m_adjnum :: int
  m_localratio :: real
  m_adjratio :: real
  m_inideltaP :: "nat \<Rightarrow> real"
  m_inilambda :: "nat \<Rightarrow> real"
  m_nextdeltaP :: "nat \<Rightarrow> real"
  m_nextlambda :: "nat \<Rightarrow> real"
  m_adjdeltaP :: "nat \<Rightarrow> real"
  m_adjlambda :: "nat \<Rightarrow> real"
  m_deltaP1 :: "nat \<Rightarrow> real"
  m_deltaP2 :: "nat \<Rightarrow> real"
  m_inimu :: "nat \<Rightarrow> real"
  m_inixi :: "nat \<Rightarrow> real"
  m_nextmu :: "nat \<Rightarrow> real"
  m_nextxi :: "nat \<Rightarrow> real"
  m_inipower :: "nat \<Rightarrow> real"
  m_nextpower :: "nat \<Rightarrow> real"
  outbox :: "(string \<times> DesdStateMessage) list"

subsection \<open>sendtoAdjList\<close>

definition sendtoAdjList :: "DDAAgent \<Rightarrow> DDAAgent" where
  "sendtoAdjList s =
     (let msg = \<lparr>iteration = m_iteration s, symbol = m_localsymbol s,
                 deltapstep1 = m_inideltaP s 0, deltapstep2 = m_inideltaP s 1,
                 deltapstep3 = m_inideltaP s 2,
                 lambdastep1 = m_inilambda s 0, lambdastep2 = m_inilambda s 1,
                 lambdastep3 = m_inilambda s 2\<rparr>
      in s\<lparr>outbox := outbox s @
            concat (map (\<lambda>symbolid. case m_strans s symbolid of
                                        None \<Rightarrow> []
                                      | Some ident \<Rightarrow> [(ident, msg)])
                        (m_localadj s))\<rparr>)"

subsection \<open>deltaPLambdaUpdate\<close>

text \<open>The body of the loop taken when \<open>m_iteration % inner_iter == 0\<close>.\<close>

definition coupled_body :: "nat \<Rightarrow> DDAAgent \<Rightarrow> DDAAgent" where
  "coupled_body i s =
     (let s1 = s\<lparr>m_nextdeltaP := (m_nextdeltaP s)
                   (i := m_localratio s * m_inideltaP s i + m_adjratio s * m_adjdeltaP s i
                         + m_inideltaP s i - m_nextdeltaP s i)\<rparr>
      in s1\<lparr>m_nextlambda := (m_nextlambda s1)
                   (i := m_localratio s1 * m_inilambda s1 i + m_adjratio s1 * m_adjdeltaP s1 i
                         + eta * m_inideltaP s1 i)\<rparr>)"

text \<open>The body of the loop of the \<open>else\<close> branch.\<close>

definition local_body :: "nat \<Rightarrow> DDAAgent \<Rightarrow> DDAAgent" where
  "local_body i s =
     (let s1 = s\<lparr>m_nextdeltaP := (m_nextdeltaP s)
                   (i := m_inideltaP s i + m_inideltaP s i - m_nextdeltaP s i)\<rparr>
      in s1\<lparr>m_nextlambda := (m_nextlambda s1)
                   (i := m_inilambda s1 i + eta * m_inideltaP s1 i)\<rparr>)"

text \<open>The last loop: the updated values become the initial ones of the next iteration.\<close>

definition assign_body :: "nat \<Rightarrow> DDAAgent \<Rightarrow> DDAAgent" where
  "assign_body i s =
     (let s1 = s\<lparr>m_inideltaP := (m_inideltaP s)(i := m_nextdeltaP s i)\<rparr>
      in s1\<lparr>m_inilambda := (m_inilambda s1)(i := m_nextlambda s1 i)\<rparr>)"

definition deltaPLambdaUpdate :: "DDAAgent \<Rightarrow> DDAAgent" where
  "deltaPLambdaUpdate s =
     (let s1 = (if unat (m_iteration s) mod inner_iter = 0
                then fold coupled_body [0, 1, 2] s
                else fold local_body [0, 1, 2] s)
      in fold assign_body [0, 1, 2] s1)"

subsection \<open>HandleUpdate\<close>

text \<open>The conditional expression \<open>x > 0 ? x : 0\<close>.\<close>

definition pos_part :: "real \<Rightarrow> real" where
  "pos_part x = (if x > 0 then x else 0)"

text \<open>
  The conversion of a \<open>double\<close> to \<open>int\<close> in \<open>int temp = ...\<close>: the fractional part is
  discarded (rounding towards zero). The result is not bounded to 32 bits here.
\<close>

definition double_to_int :: "real \<Rightarrow> int" where
  "double_to_int x = (if 0 \<le> x then \<lfloor>x\<rfloor> else \<lceil>x\<rceil>)"

definition accumulate :: "DesdStateMessage \<Rightarrow> DDAAgent \<Rightarrow> DDAAgent" where
  "accumulate msg s =
     s\<lparr>m_adjdeltaP := (m_adjdeltaP s)
          (0 := m_adjdeltaP s 0 + deltapstep1 msg,
           1 := m_adjdeltaP s 1 + deltapstep2 msg,
           2 := m_adjdeltaP s 2 + deltapstep3 msg),
        m_adjlambda := (m_adjlambda s)
          (0 := m_adjlambda s 0 + lambdastep1 msg,
           1 := m_adjlambda s 1 + lambdastep2 msg,
           2 := m_adjlambda s 2 + lambdastep3 msg)\<rparr>"

definition aug_of :: "(nat \<Rightarrow> real) \<Rightarrow> nat \<Rightarrow> real" where
  "aug_of d = (\<lambda>i. 0)
     (0 := pos_part (d 0) + pos_part (d 1) + pos_part (d 2),
      1 := pos_part (d 1) + pos_part (d 2),
      2 := pos_part (d 2))"

text \<open>
  The power loop of the DESD role carries the local variables \<open>summu\<close> and \<open>sumxi\<close>
  from one pass to the next.
\<close>

definition desd_power_body ::
  "(nat \<Rightarrow> real) \<Rightarrow> (nat \<Rightarrow> real) \<Rightarrow> nat \<Rightarrow> DDAAgent \<times> real \<times> real \<Rightarrow> DDAAgent \<times> real \<times> real" where
  "desd_power_body aug1 aug2 i = (\<lambda>(s, summu, sumxi).
     (let p = m_inipower s i - eta * (- m_inilambda s i - summu * real_of_int delta_time)
                + sumxi * real_of_int delta_time - rho * m_inideltaP s i
                - rho * aug1 i + rho * aug2 i;
          p' = (if p > P_max_desd then P_max_desd
                else if p < P_min_desd then P_min_desd else p)
      in (s\<lparr>m_nextpower := (m_nextpower s)(i := p')\<rparr>,
          summu - m_inimu s i, sumxi - m_inixi s i)))"

definition copy_power_body :: "nat \<Rightarrow> DDAAgent \<Rightarrow> DDAAgent" where
  "copy_power_body i s = s\<lparr>m_inipower := (m_inipower s)(i := m_nextpower s i)\<rparr>"

text \<open>The residual loop carries the running sum \<open>sumpower\<close>.\<close>

definition residual_body :: "nat \<Rightarrow> DDAAgent \<times> real \<Rightarrow> DDAAgent \<times> real" where
  "residual_body i = (\<lambda>(s, sumpower).
     (let sumpower' = sumpower + m_nextpower s i
      in (s\<lparr>m_deltaP1 := (m_deltaP1 s)
               (i := E_init i - E_full i - sumpower' * real_of_int delta_time),
            m_deltaP2 := (m_deltaP2 s)
               (i := sumpower' * real_of_int delta_time - E_init i)\<rparr>,
          sumpower')))"

definition dual_body :: "nat \<Rightarrow> DDAAgent \<Rightarrow> DDAAgent" where
  "dual_body i s =
     (let temp = double_to_int (m_inimu s i + eta * m_deltaP1 s i);
          s1 = s\<lparr>m_nextmu := (m_nextmu s)(i := (if temp > 0 then real_of_int temp else 0))\<rparr>;
          temp2 = double_to_int (m_inixi s1 i + eta * m_deltaP2 s1 i)
      in s1\<lparr>m_nextxi := (m_nextxi s1)(i := (if temp2 > 0 then real_of_int temp2 else 0))\<rparr>)"

definition copy_dual_body :: "nat \<Rightarrow> DDAAgent \<Rightarrow> DDAAgent" where
  "copy_dual_body i s =
     s\<lparr>m_inimu := (m_inimu s)(i := m_nextmu s i),
       m_inixi := (m_inixi s)(i := m_nextxi s i)\<rparr>"

text \<open>
  The three role branches end alike: consensus update, counter reset, next iteration,
  and a broadcast while the iteration is below 5000.
\<close>

definition finish_round :: "DDAAgent \<Rightarrow> DDAAgent" where
  "finish_round s =
     (let s1 = deltaPLambdaUpdate s;
          s2 = s1\<lparr>m_adjnum := int (length (m_localadj s1))\<rparr>;
          s3 = s2\<lparr>m_iteration := m_iteration s2 + 1\<rparr>
      in if unat (m_iteration s3) < 5000 then sendtoAdjList s3 else s3)"

text \<open>The local computations of the DESD role, up to the copy of the new duals.\<close>

definition desd_local :: "DDAAgent \<Rightarrow> DDAAgent" where
  "desd_local s =
     (let aug1 = aug_of (m_deltaP1 s);
          aug2 = aug_of (m_deltaP2 s);
          summu = m_inimu s 0 + m_inimu s 1 + m_inimu s 2;
          sumxi = m_inixi s 0 + m_inixi s 1 + m_inixi s 2;
          s1 = fst (fold (desd_power_body aug1 aug2) [0, 1, 2] (s, summu, sumxi));
          s2 = fold copy_power_body [0, 1, 2] s1;
          s3 = fst (fold residual_body [0, 1, 2] (s2, 0));
          s4 = fold dual_body [0, 1, 2] s3
      in fold copy_dual_body [0, 1, 2] s4)"

definition desd_update :: "DDAAgent \<Rightarrow> DDAAgent" where
  "desd_update s = finish_round (desd_local s)"

definition grid_power_body :: "nat \<Rightarrow> DDAAgent \<times> real \<Rightarrow> DDAAgent \<times> real" where
  "grid_power_body i = (\<lambda>(s, cost).
     (let p = m_inipower s i
                - eta * (price_profile i - m_inilambda s i - rho * m_inideltaP s i);
          p' = (if p > P_max_grid then P_max_grid
                else if p < P_min_grid then P_min_grid else p)
      in (s\<lparr>m_nextpower := (m_nextpower s)(i := p')\<rparr>,
          cost + price_profile i * m_inipower s i * real_of_int delta_time)))"

text \<open>The local computations of the grid role.\<close>

definition grid_local :: "DDAAgent \<Rightarrow> DDAAgent" where
  "grid_local s =
     (let s1 = fst (fold grid_power_body [0, 1, 2] (s, 0))
      in fold copy_power_body [0, 1, 2] s1)"

definition grid_update :: "DDAAgent \<Rightarrow> DDAAgent" where
  "grid_update s = finish_round (grid_local s)"

definition clear_adj :: "DDAAgent \<Rightarrow> DDAAgent" where
  "clear_adj s =
     s\<lparr>m_adjdeltaP := (m_adjdeltaP s)(0 := 0, 1 := 0, 2 := 0),
       m_adjlambda := (m_adjlambda s)(0 := 0, 1 := 0, 2 := 0)\<rparr>"

definition HandleUpdate :: "DesdStateMessage \<Rightarrow> DDAAgent \<Rightarrow> DDAAgent" where
  "HandleUpdate msg s =
     (if iteration msg = m_iteration s then
        if symbol msg \<in> set (m_localadj s) then
          let s1 = s\<lparr>m_adjnum := m_adjnum s - 1\<rparr>
          in if m_adjnum s1 \<noteq> 0 then accumulate msg s1
             else clear_adj
                    (if m_localsymbol s1 = ''4'' \<or> m_localsymbol s1 = ''7''
                        \<or> m_localsymbol s1 = ''10''
                     then desd_update s1
                     else if m_localsymbol s1 = ''1'' then grid_update s1
                     else finish_round s1)
        else s
      else s)"

subsection \<open>Concrete solver states\<close>

definition zero3 :: "nat \<Rightarrow> real" where
  "zero3 = (\<lambda>i. 0)"

text \<open>
  A node with the single neighbour \<open>''2''\<close> in a topology of maximal degree one:
  \<open>epsil = 1 / 2\<close>, hence both ratios are \<open>1 / 2\<close>. It waits for one report.
\<close>

definition leaf_agent :: "string \<Rightarrow> DDAAgent" where
  "leaf_agent vsym =
     \<lparr>m_iteration = 0, m_localsymbol = vsym, m_localadj = [''2''],
      m_strans = [''2'' \<mapsto> ''uuid2''], m_adjnum = 1,
      m_localratio = 1 / 2, m_adjratio = 1 / 2,
      m_inideltaP = zero3, m_inilambda = zero3, m_nextdeltaP = zero3, m_nextlambda = zero3,
      m_adjdeltaP = zero3, m_adjlambda = zero3, m_deltaP1 = zero3, m_deltaP2 = zero3,
      m_inimu = zero3, m_inixi = zero3, m_nextmu = zero3, m_nextxi = zero3,
      m_inipower = zero3, m_nextpower = zero3, outbox = []\<rparr>"

text \<open>The report of neighbour \<open>''2''\<close> for iteration 0 with equal entries.\<close>

definition report :: "real \<Rightarrow> real \<Rightarrow> DesdStateMessage" where
  "report dp lam =
     \<lparr>iteration = 0, symbol = ''2'', deltapstep1 = dp, deltapstep2 = dp, deltapstep3 = dp,
      lambdastep1 = lam, lambdastep2 = lam, lambdastep3 = lam\<rparr>"

text \<open>The same node in iteration 1 (not a multiple of 5) with \<open>\<Delta>P[0] = 2\<close>.\<close>

definition inner_agent :: DDAAgent where
  "inner_agent = (leaf_agent ''3'')\<lparr>m_iteration := 1, m_inideltaP := zero3(0 := 2)\<rparr>"

text \<open>A storage node (symbol \<open>''4''\<close>) that discharges \<open>1 / 2\<close> in the first slot.\<close>

definition desd_agent :: DDAAgent where
  "desd_agent = (leaf_agent ''4'')\<lparr>m_inipower := zero3(0 := - 1 / 2)\<rparr>"

section \<open>Plug-and-play adapter: CArmAdapter\<close>

text \<open>
  Time is counted in milliseconds. A deadline timer of the adapter is \<open>Some d\<close> while a
  wait for the deadline \<open>d\<close> is pending and \<open>None\<close> otherwise. The class declaration
  (CArmAdapter.hpp) is not among the sources: \<open>m_stateInfo\<close> is the map from a scoped
  device name to an index that \<open>ReadStatePacket\<close> uses it as, \<open>m_rxBuffer\<close> is indexed
  by these indices, and the conversion \<open>boost::lexical_cast\<close> of a value string is a
  parameter \<open>cast\<close> of the model, \<open>None\<close> where it throws \<open>bad_lexical_cast\<close>.
\<close>

datatype arm_error = BadLexicalCast

record 'v CArmAdapter =
  m_identifier :: string
  m_stateInfo :: "string \<rightharpoonup> nat"
  m_rxBuffer :: "nat \<rightharpoonup> 'v"
  m_initialized :: bool
  m_heartbeat :: "nat option"
  m_command :: "nat option"
  m_removed :: bool

definition crlf2 :: string where
  "crlf2 = [CHR 0x0D, CHR 0x0A, CHR 0x0D, CHR 0x0A]"

subsection \<open>Formatted extraction from a string stream\<close>

text \<open>
  \<open>stream >> word\<close> skips white space and reads up to the next white space; it fails
  at the end of the stream. \<open>tokens\<close> lists the words of successive extractions.
\<close>

definition is_space :: "char \<Rightarrow> bool" where
  "is_space c = (c \<in> set [CHR '' '', CHR 0x09, CHR 0x0A, CHR 0x0B, CHR 0x0C, CHR 0x0D])"

fun tokens_acc :: "string \<Rightarrow> string \<Rightarrow> string list" where
  "tokens_acc cur [] = (if cur = [] then [] else [cur])"
| "tokens_acc cur (c # cs) =
     (if is_space c then (if cur = [] then tokens_acc [] cs else cur # tokens_acc [] cs)
      else tokens_acc (cur @ [c]) cs)"

definition tokens :: "string \<Rightarrow> string list" where
  "tokens text = tokens_acc [] text"

text \<open>\<open>packet >> header\<close>: the header stays empty when there is no word.\<close>

definition first_token :: "string \<Rightarrow> string" where
  "first_token text = (case tokens text of [] \<Rightarrow> [] | t # ts \<Rightarrow> t)"

subsection \<open>Start, Heartbeat, Timeout\<close>

definition Start :: "nat \<Rightarrow> 'v CArmAdapter \<Rightarrow> 'v CArmAdapter" where
  "Start now s = s\<lparr>m_heartbeat := Some (now + 5000)\<rparr>"

text \<open>
  \<open>expires_from_now\<close> returns the number of pending waits it cancelled: one while the
  wait is pending and its deadline has not passed, none otherwise; only in the first case
  is the timer armed again.
\<close>

definition Heartbeat :: "nat \<Rightarrow> 'v CArmAdapter \<Rightarrow> 'v CArmAdapter" where
  "Heartbeat now s =
     (case m_heartbeat s of
        None \<Rightarrow> s
      | Some d \<Rightarrow> if now < d then s\<lparr>m_heartbeat := Some (now + 5000)\<rparr> else s)"

text \<open>
  The wait completes without error once its deadline has passed; \<open>Timeout\<close> then
  removes the adapter from the factory.
\<close>

definition Timeout :: "nat \<Rightarrow> 'v CArmAdapter \<Rightarrow> 'v CArmAdapter" where
  "Timeout now s =
     (case m_heartbeat s of
        None \<Rightarrow> s
      | Some d \<Rightarrow> if d \<le> now then s\<lparr>m_heartbeat := None, m_removed := True\<rparr> else s)"

subsection \<open>ReadStatePacket\<close>

datatype 'v scan_result = UnknownDevice | DuplicateDevice | CastThrows | Scanned "nat \<rightharpoonup> 'v"

text \<open>
  The loop \<open>while (out >> name >> signal >> strval)\<close> with the map \<open>temp\<close>: it ends
  when fewer than three words are left.
\<close>

fun scan_states ::
  "(string \<Rightarrow> 'v option) \<Rightarrow> string \<Rightarrow> (string \<rightharpoonup> nat) \<Rightarrow> string list \<Rightarrow> (nat \<rightharpoonup> 'v)
     \<Rightarrow> 'v scan_result" where
  "scan_states cast ident info (name # signal # strval # rest) temp =
     (case info (ident @ '':'' @ name) of
        None \<Rightarrow> UnknownDevice
      | Some index \<Rightarrow>
          (case cast strval of
             None \<Rightarrow> CastThrows
           | Some val \<Rightarrow>
               if temp index \<noteq> None then DuplicateDevice
               else scan_states cast ident info rest (temp(index \<mapsto> val))))"
| "scan_states cast ident info ws temp = Scanned temp"

definition ReadStatePacket ::
  "(string \<Rightarrow> 'v option) \<Rightarrow> nat \<Rightarrow> string \<Rightarrow> 'v CArmAdapter
     \<Rightarrow> arm_error + string \<times> 'v CArmAdapter" where
  "ReadStatePacket cast now packet s =
     (case scan_states cast (m_identifier s) (m_stateInfo s) (tokens packet) Map.empty of
        UnknownDevice \<Rightarrow> Inr (''UnknownDevice'' @ crlf2, s)
      | DuplicateDevice \<Rightarrow> Inr (''DuplicateDevice'' @ crlf2, s)
      | CastThrows \<Rightarrow> Inl BadLexicalCast
      | Scanned temp \<Rightarrow>
          (let s1 = s\<lparr>m_rxBuffer := m_rxBuffer s ++ temp\<rparr>;
               s2 = (if \<not> m_initialized s1
                     then s1\<lparr>m_initialized := True, m_command := Some (now + 2000)\<rparr>
                     else s1)
           in Inr (''Received'' @ crlf2, s2)))"

subsection \<open>HandleMessage\<close>

text \<open>
  \<open>recv\<close> is what \<open>ReceiveData\<close> returns, \<open>None\<close> when it throws; \<open>send_ok\<close> tells
  whether \<open>SendData\<close> returns. The result is the response that was sent, if any, and the
  new state. \<open>ReadStatePacket\<close> is handed \<open>packet.str()\<close>, the whole text received.
\<close>

definition HandleMessage ::
  "(string \<Rightarrow> 'v option) \<Rightarrow> nat \<Rightarrow> string option \<Rightarrow> bool \<Rightarrow> 'v CArmAdapter
     \<Rightarrow> string option \<times> 'v CArmAdapter" where
  "HandleMessage cast now recv send_ok s =
     (case recv of
        None \<Rightarrow> (None, s)
      | Some packet \<Rightarrow>
          (let s1 = Heartbeat now s;
               header = first_token packet
           in case (if header = ''DeviceStates'' then ReadStatePacket cast now packet s1
                    else if header = ''PoliteDisconnect''
                    then Inr (''PoliteDisconnect: Accepted'' @ crlf2, s1)
                    else Inr (''UnknownHeader'' @ crlf2, s1)) of
                Inl e \<Rightarrow> (None, s1)
              | Inr (response, s2) \<Rightarrow>
                  if send_ok then (Some response, Heartbeat now s2) else (None, s2)))"

subsection \<open>Concrete adapter sessions\<close>

text \<open>A conversion that reads unsigned decimal numbers and throws on anything else.\<close>

definition decimal_cast :: "string \<Rightarrow> nat option" where
  "decimal_cast w =
     (if w \<noteq> [] \<and> list_all (\<lambda>c. 48 \<le> (of_char c :: nat) \<and> (of_char c :: nat) \<le> 57) w
      then Some (fold (\<lambda>c n. 10 * n + ((of_char c :: nat) - 48)) w 0)
      else None)"

text \<open>
  A started session \<open>board\<close> with the devices \<open>a\<close> and \<open>b\<close> registered, whose
  heartbeat wait ends at 5000.
\<close>

definition board_session :: "nat CArmAdapter" where
  "board_session =
     \<lparr>m_identifier = ''board'',
      m_stateInfo = [''board:a'' \<mapsto> 0, ''board:b'' \<mapsto> 1],
      m_rxBuffer = Map.empty, m_initialized = False,
      m_heartbeat = Some 5000, m_command = None, m_removed = False\<rparr>"

definition line :: "string \<Rightarrow> string" where
  "line text = text @ [CHR 0x0D, CHR 0x0A]"

subsection \<open>Lines of a state packet\<close>

text \<open>
  The complete lines \<open>name signal value\<close> of a text, as the loop of \<open>ReadStatePacket\<close>
  reads them; one or two words left over at the end are not a line. A line is indexed
  by the registration of its scoped name. A list of lines is good when every name is
  registered, every value converts, and no index occurs twice.
\<close>

fun triples :: "string list \<Rightarrow> (string \<times> string \<times> string) list" where
  "triples (name # signal # strval # rest) = (name, signal, strval) # triples rest"
| "triples ws = []"

definition line_index ::
  "string \<Rightarrow> (string \<rightharpoonup> nat) \<Rightarrow> string \<times> string \<times> string \<Rightarrow> nat option" where
  "line_index ident info t = info (ident @ '':'' @ fst t)"

definition good_lines ::
  "(string \<Rightarrow> 'v option) \<Rightarrow> string \<Rightarrow> (string \<rightharpoonup> nat) \<Rightarrow> (string \<times> string \<times> string) list
     \<Rightarrow> bool" where
  "good_lines cast ident info ls \<longleftrightarrow>
     list_all (\<lambda>t. line_index ident info t \<noteq> None \<and> cast (snd (snd t)) \<noteq> None) ls
     \<and> distinct (map (line_index ident info) ls)"

text \<open>The loop of \<open>ReadStatePacket\<close> on lines instead of words.\<close>

fun scan_lines ::
  "(string \<Rightarrow> 'v option) \<Rightarrow> string \<Rightarrow> (string \<rightharpoonup> nat) \<Rightarrow> (string \<times> string \<times> string) list
     \<Rightarrow> (nat \<rightharpoonup> 'v) \<Rightarrow> 'v scan_result" where
  "scan_lines cast ident info [] temp = Scanned temp"
| "scan_lines cast ident info (t # ls) temp =
     (case line_index ident info t of
        None \<Rightarrow> UnknownDevice
      | Some index \<Rightarrow>
          (case cast (snd (snd t)) of
             None \<Rightarrow> CastThrows
           | Some val \<Rightarrow>
               if temp index \<noteq> None then DuplicateDevice
               else scan_lines cast ident info ls (temp(index \<mapsto> val))))"

text \<open>Texts received from the board; each ends with an empty line.\<close>

definition packet_a12 :: string where
  "packet_a12 = line ''DeviceStates'' @ line ''a v 12'' @ line []"

definition packet_badcast :: string where
  "packet_badcast = line ''a v x'' @ line ''''"

definition packet_bogus :: string where
  "packet_bogus = line ''Bogus'' @ line ''''"

definition packet_empty :: string where
  "packet_empty = line ''DeviceStates'' @ line ''''"

section \<open>Clock synchronizer: CClockSynchronizer\<close>

text \<open>
  A \<open>ptime\<close> and a \<open>time_duration\<close> are integers, counted in microseconds; a \<open>double\<close>
  is a real number. The tables are \<open>std::map\<close>s keyed by a pair of uuids. The offset
  table, which the code iterates over, is an association list with one entry for each
  key, updated in place; the sums taken over it do not depend on the order of the entries.
  The other tables are maps. One call reads the clock once: \<open>now\<close>. The round counter
  \<open>m_kcounter\<close> has the width of the sequence number of the messages, 32 bits. The class
  declaration (CClockSynchronizer.hpp) is not among the sources.
\<close>

type_synonym MapIndex = "string \<times> string"

definition MAX_REGRESSION_ENTRIES :: nat where "MAX_REGRESSION_ENTRIES = 200"
definition SYNCHRONIZER_LAMBDA :: real where "SYNCHRONIZER_LAMBDA = 99999 / 100000"
definition QUERY_INTERVAL :: int where "QUERY_INTERVAL = 10000"

record TableEntry =
  te_uuid :: string
  te_offset_secs :: int
  te_offset_fracs :: int
  te_skew :: real
  te_weight :: real

text \<open>
  \<open>erm_sendtime\<close> is the value of \<open>time_from_string\<close> on the field
  \<open>unsynchronized_sendtime\<close>, \<open>None\<close> where the conversion throws.
\<close>

record ExchangeResponseMessage =
  erm_response :: "32 word"
  erm_sendtime :: "int option"
  erm_table :: "TableEntry list"

datatype cs_message = ExchangeMessage "32 word" | ExchangeResponse ExchangeResponseMessage

datatype cs_error = WeightMissing | LastResponseMissing | BadTimeString

record CClockSynchronizer =
  m_uuid :: string
  m_offsets :: "(MapIndex \<times> int) list"
  m_skews :: "MapIndex \<rightharpoonup> real"
  m_weights :: "MapIndex \<rightharpoonup> real \<times> int"
  m_lastresponse :: "MapIndex \<rightharpoonup> 32 word"
  m_queries :: "MapIndex \<rightharpoonup> 32 word \<times> int"
  m_responses :: "MapIndex \<rightharpoonup> (int \<times> int) list"
  m_kcounter :: "32 word"
  m_lastinteraction :: int
  m_myoffset :: int
  m_myskew :: real
  m_exchangetimer :: "int option"
  ClockSkew :: int
  sent :: "(string \<times> cs_message) list"

subsection \<open>TDToDouble, DoubleToTD\<close>

text \<open>
  \<open>total_seconds\<close> and \<open>fractional_seconds\<close> of a duration are the quotient and the
  remainder of the division by a million that rounds towards zero.
\<close>

definition TDToDouble :: "int \<Rightarrow> real" where
  "TDToDouble td = real_of_int (td sdiv 1000000) + (real_of_int (td smod 1000000) * 1) / 1000000"

text \<open>\<open>modf\<close> splits off the integral part, rounded towards zero.\<close>

definition DoubleToTD :: "real \<Rightarrow> int" where
  "DoubleToTD td =
     (let seconds = double_to_int td;
          tmp = (td - real_of_int seconds) * 1000000;
          fractional = double_to_int tmp
      in seconds * 1000000 + fractional)"

subsection \<open>GetWeight, SetWeight\<close>

text \<open>
  \<open>GetWeight\<close> throws when the index is not in the weights table; it reads
  \<open>m_lastresponse\<close> through \<open>find\<close> without a check.
\<close>

definition GetWeight :: "CClockSynchronizer \<Rightarrow> MapIndex \<Rightarrow> cs_error + real" where
  "GetWeight s i =
     (if i = (m_uuid s, m_uuid s) then Inr 1
      else case m_weights s i of
             None \<Rightarrow> Inl WeightMissing
           | Some (w, set_at) \<Rightarrow>
               (case m_lastresponse s i of
                  None \<Rightarrow> Inl LastResponseMissing
                | Some k \<Rightarrow> Inr (w * SYNCHRONIZER_LAMBDA ^ unat (m_kcounter s - k))))"

definition SetWeight :: "int \<Rightarrow> MapIndex \<Rightarrow> real \<Rightarrow> CClockSynchronizer \<Rightarrow> CClockSynchronizer" where
  "SetWeight now i w s =
     s\<lparr>m_weights := (m_weights s)(i \<mapsto> (w, now)),
       m_lastresponse := (m_lastresponse s)(i \<mapsto> m_kcounter s)\<rparr>"

text \<open>
  \<open>m_skews[i]\<close> as a value: a missing entry is created with the value 0.
\<close>

definition touch_skew :: "MapIndex \<Rightarrow> CClockSynchronizer \<Rightarrow> CClockSynchronizer" where
  "touch_skew i s = (case m_skews s i of None \<Rightarrow> s\<lparr>m_skews := (m_skews s)(i \<mapsto> 0)\<rparr> | Some f \<Rightarrow> s)"

definition skew_of :: "CClockSynchronizer \<Rightarrow> MapIndex \<Rightarrow> real" where
  "skew_of s i = (case m_skews s i of None \<Rightarrow> 0 | Some f \<Rightarrow> f)"

definition offset_of :: "CClockSynchronizer \<Rightarrow> MapIndex \<Rightarrow> int" where
  "offset_of s i = (case map_of (m_offsets s) i of None \<Rightarrow> 0 | Some c \<Rightarrow> c)"

text \<open>The three assignments that make an entry of the tables.\<close>

definition set_entry ::
  "int \<Rightarrow> MapIndex \<Rightarrow> int \<Rightarrow> real \<Rightarrow> real \<Rightarrow> CClockSynchronizer \<Rightarrow> CClockSynchronizer" where
  "set_entry now i c w f s =
     (let s1 = s\<lparr>m_offsets := AList.update i c (m_offsets s)\<rparr>;
          s2 = SetWeight now i w s1
      in s2\<lparr>m_skews := (m_skews s2)(i \<mapsto> f)\<rparr>)"

subsection \<open>The constructor\<close>

text \<open>
  \<open>SetWeight\<close> is called before \<open>m_kcounter\<close> is assigned: \<open>k0\<close> is the value it finds
  there.
\<close>

definition CClockSynchronizer_new :: "string \<Rightarrow> 32 word \<Rightarrow> int \<Rightarrow> CClockSynchronizer" where
  "CClockSynchronizer_new uuid k0 now =
     (let s0 = \<lparr>m_uuid = uuid, m_offsets = [], m_skews = Map.empty, m_weights = Map.empty,
                m_lastresponse = Map.empty, m_queries = Map.empty, m_responses = Map.empty,
                m_kcounter = k0, m_lastinteraction = 0, m_myoffset = 0, m_myskew = 0,
                m_exchangetimer = None, ClockSkew = 0, sent = []\<rparr>;
          s1 = set_entry now (uuid, uuid) 0 1 0 s0
      in s1\<lparr>m_lastinteraction := now, m_kcounter := 0, m_myoffset := 0, m_myskew := 0\<rparr>)"

subsection \<open>CreateExchangeResponse, HandleExchange\<close>

fun table_entries ::
  "(MapIndex \<times> int) list \<Rightarrow> CClockSynchronizer \<Rightarrow> cs_error + TableEntry list \<times> CClockSynchronizer" where
  "table_entries [] s = Inr ([], s)"
| "table_entries ((i, c) # rest) s =
     (let s1 = touch_skew i s
      in case GetWeight s1 i of
           Inl e \<Rightarrow> Inl e
         | Inr w \<Rightarrow>
             (case table_entries rest s1 of
                Inl e \<Rightarrow> Inl e
              | Inr (tes, s2) \<Rightarrow>
                  Inr (\<lparr>te_uuid = snd i, te_offset_secs = c sdiv 1000000,
                        te_offset_fracs = c smod 1000000, te_skew = skew_of s1 i,
                        te_weight = w\<rparr> # tes, s2)))"

definition CreateExchangeResponse ::
  "int \<Rightarrow> 32 word \<Rightarrow> CClockSynchronizer \<Rightarrow> cs_error + cs_message \<times> CClockSynchronizer" where
  "CreateExchangeResponse now k s =
     (case table_entries (m_offsets s) s of
        Inl e \<Rightarrow> Inl e
      | Inr (tes, s1) \<Rightarrow>
          Inr (ExchangeResponse
                 \<lparr>erm_response = k, erm_sendtime = Some now, erm_table = tes\<rparr>, s1))"

definition HandleExchange ::
  "int \<Rightarrow> 32 word \<Rightarrow> string \<Rightarrow> CClockSynchronizer \<Rightarrow> cs_error + CClockSynchronizer" where
  "HandleExchange now query peer s =
     (case CreateExchangeResponse now query s of
        Inl e \<Rightarrow> Inl e
      | Inr (m, s1) \<Rightarrow> Inr (s1\<lparr>sent := sent s1 @ [(peer, m)]\<rparr>))"

subsection \<open>HandleExchangeResponse\<close>

text \<open>The first loop over the responses: the sums and the flag \<open>even\<close>.\<close>

definition sum_body :: "int \<Rightarrow> int \<times> int \<Rightarrow> int \<times> int \<times> int \<times> bool \<Rightarrow> int \<times> int \<times> int \<times> bool" where
  "sum_body base t = (\<lambda>(sumx, sumy, sumlag, even_flag).
     (sumx + (fst t - base), sumy + (snd t - base),
      (if even_flag = False then sumlag - (snd t - base) else sumlag + (snd t - base)),
      (if even_flag = False then True else False)))"

text \<open>The second loop: \<open>tmp3\<close> and \<open>tmp4\<close>.\<close>

definition spread_body :: "int \<Rightarrow> int \<Rightarrow> int \<Rightarrow> int \<times> int \<Rightarrow> real \<times> real \<Rightarrow> real \<times> real" where
  "spread_body base xbar ybar t = (\<lambda>(tmp3, tmp4).
     (let tmp1 = TDToDouble ((fst t - base) - xbar);
          tmp2 = TDToDouble ((snd t - base) - ybar)
      in (tmp3 + tmp1 * tmp2, tmp4 + tmp1 * tmp1)))"

text \<open>The regression: the offset and the skew that are stored for the sender.\<close>

definition regression :: "int \<Rightarrow> (int \<times> int) list \<Rightarrow> int \<times> real" where
  "regression now rlist =
     (let base = now;
          (sumx, sumy, sumlag, even_flag) = fold (sum_body base) rlist (0, 0, 0, False);
          lag = TDToDouble sumlag / real (length rlist);
          dxbar = TDToDouble sumx / real (length rlist);
          dybar = TDToDouble sumy / real (length rlist);
          xbar = DoubleToTD dxbar;
          ybar = DoubleToTD dybar;
          (tmp3, tmp4) = fold (spread_body base xbar ybar) rlist (0, 0);
          fij = (if tmp4 \<noteq> 0 then tmp3 / tmp4 else 1);
          alpha = dybar - fij * dxbar;
          alpha' = (if alpha \<le> 0 then alpha + lag else alpha - lag)
      in (- DoubleToTD alpha', fij - 1))"

text \<open>The loop over the table of the response.\<close>

fun table_loop ::
  "int \<Rightarrow> string \<Rightarrow> TableEntry list \<Rightarrow> CClockSynchronizer \<Rightarrow> cs_error + CClockSynchronizer" where
  "table_loop now sender [] s = Inr s"
| "table_loop now sender (te # rest) s =
     (let neighbor = te_uuid te
      in if neighbor = sender \<or> neighbor = m_uuid s then table_loop now sender rest s
         else
           (let cjl = te_offset_secs te * 1000000 + te_offset_fracs te;
                wjl = te_weight te - 1 / 10;
                fjl = te_skew te;
                ij = (m_uuid s, sender);
                il = (m_uuid s, neighbor);
                s1 = (if map_of (m_offsets s) il = None then set_entry now il 0 0 0 s else s)
            in case GetWeight s1 il of
                 Inl e \<Rightarrow> Inl e
               | Inr w \<Rightarrow>
                   table_loop now sender rest
                     (if w < wjl
                      then set_entry now il (offset_of s1 ij + cjl) wjl (skew_of s1 ij + fjl) s1
                      else s1)))"

definition HandleExchangeResponse ::
  "int \<Rightarrow> ExchangeResponseMessage \<Rightarrow> string \<Rightarrow> CClockSynchronizer
     \<Rightarrow> cs_error + CClockSynchronizer" where
  "HandleExchangeResponse now msg sender s =
     (let ij = (m_uuid s, sender)
      in case erm_sendtime msg of
           None \<Rightarrow> Inl BadTimeString
         | Some resp \<Rightarrow>
             (case m_queries s ij of
                None \<Rightarrow> Inr s
              | Some (k, challenge) \<Rightarrow>
                  if k \<noteq> erm_response msg then Inr s
                  else
                    (let s1 = s\<lparr>m_queries := (m_queries s)(ij := None)\<rparr>;
                         rlist = (case m_responses s1 ij of None \<Rightarrow> [] | Some l \<Rightarrow> l);
                         rlist1 = rlist @ [(resp, challenge)];
                         rlist2 = rlist1 @ [(resp, now)];
                         rlist3 = (if length rlist2 > MAX_REGRESSION_ENTRIES * 2
                                   then tl (tl rlist2) else rlist2);
                         s2 = s1\<lparr>m_responses := (m_responses s1)(ij \<mapsto> rlist3)\<rparr>;
                         (cij, fij1) = regression now rlist3;
                         s3 = set_entry now ij cij 1 fij1 s2
                     in table_loop now sender (erm_table msg) s3)))"

subsection \<open>Exchange\<close>

text \<open>
  The peers after this node in the peer list come first, then those before it. The
  list holds the uuids of the peer list in its order.
\<close>

definition rotate_body :: "string \<Rightarrow> string \<Rightarrow> string list \<times> string list \<times> bool \<Rightarrow> string list \<times> string list \<times> bool" where
  "rotate_body uuid peer = (\<lambda>(tmplist, tmplist2, flop).
     if peer = uuid then (tmplist, tmplist2, True)
     else if flop = False then (tmplist, tmplist2 @ [peer], flop)
     else (tmplist @ [peer], tmplist2, flop))"

definition query_order :: "string \<Rightarrow> string list \<Rightarrow> string list" where
  "query_order uuid peers =
     (let (tmplist, tmplist2, flop) = fold (rotate_body uuid) peers ([], [], False)
      in tmplist @ tmplist2)"

definition query_body :: "int \<Rightarrow> string \<Rightarrow> CClockSynchronizer \<Rightarrow> CClockSynchronizer" where
  "query_body now peer s =
     s\<lparr>sent := sent s @ [(peer, ExchangeMessage (m_kcounter s))],
       m_queries := (m_queries s)((m_uuid s, peer) \<mapsto> (m_kcounter s, now))\<rparr>"

text \<open>The loop over the offset table that sums up the weighted offsets and skews.\<close>

fun sum_offsets ::
  "(MapIndex \<times> int) list \<Rightarrow> real \<times> real \<times> real \<Rightarrow> CClockSynchronizer
     \<Rightarrow> cs_error + (real \<times> real \<times> real) \<times> CClockSynchronizer" where
  "sum_offsets [] acc s = Inr (acc, s)"
| "sum_offsets ((i, c) # rest) (tmp1, tmp2, tmp3) s =
     (case GetWeight s i of
        Inl e \<Rightarrow> Inl e
      | Inr w \<Rightarrow>
          (let s1 = touch_skew i s
           in sum_offsets rest (tmp1 + w * TDToDouble c, tmp2 + w, tmp3 + w * skew_of s1 i) s1))"

definition Exchange ::
  "bool \<Rightarrow> string list \<Rightarrow> int \<Rightarrow> CClockSynchronizer \<Rightarrow> cs_error + CClockSynchronizer" where
  "Exchange err peers now s =
     (if err then Inr s
      else
        (let s1 = fold (query_body now) (query_order (m_uuid s) peers) s;
             s2 = s1\<lparr>m_kcounter := m_kcounter s1 + 1\<rparr>;
             s3 = s2\<lparr>m_exchangetimer := Some (now + QUERY_INTERVAL * 1000)\<rparr>;
             ii = (m_uuid s3, m_uuid s3);
             s4 = set_entry now ii 0 1 0 s3
         in case sum_offsets (m_offsets s4) (0, 0, 0) s4 of
              Inl e \<Rightarrow> Inl e
            | Inr ((tmp1, tmp2, tmp3), s5) \<Rightarrow>
                (let s6 = (if tmp2 \<noteq> 0
                           then s5\<lparr>m_myoffset := DoubleToTD (tmp1 / tmp2),
                                   ClockSkew := DoubleToTD (tmp1 / tmp2),
                                   m_myskew := tmp3 / tmp2\<rparr>
                           else s5)
                 in Inr (set_entry now ii 0 1 0 s6))))"

subsection \<open>Runs of the synchronizer\<close>

text \<open>
  What happens to a synchronizer after its construction: a timer call of \<open>Exchange\<close>,
  or a message that \<open>HandleIncomingMessage\<close> passes to \<open>HandleExchange\<close> or to
  \<open>HandleExchangeResponse\<close>. A run stops at the first call that throws.
\<close>

datatype cs_event =
    ExchangeTick bool "string list" int
  | ExchangeReceived int "32 word" string
  | ResponseReceived int ExchangeResponseMessage string

fun cs_step :: "cs_event \<Rightarrow> CClockSynchronizer \<Rightarrow> cs_error + CClockSynchronizer" where
  "cs_step (ExchangeTick err peers now) s = Exchange err peers now s"
| "cs_step (ExchangeReceived now query peer) s = HandleExchange now query peer s"
| "cs_step (ResponseReceived now msg peer) s = HandleExchangeResponse now msg peer s"

fun cs_run :: "cs_event list \<Rightarrow> CClockSynchronizer \<Rightarrow> cs_error + CClockSynchronizer" where
  "cs_run [] s = Inr s"
| "cs_run (ev # evs) s = (case cs_step ev s of Inl e \<Rightarrow> Inl e | Inr s1 \<Rightarrow> cs_run evs s1)"

subsection \<open>Invariants of the synchronizer\<close>

text \<open>The entries of the pair of this node with itself, and no query to itself.\<close>

definition self_sane :: "CClockSynchronizer \<Rightarrow> bool" where
  "self_sane s \<longleftrightarrow>
     map_of (m_offsets s) (m_uuid s, m_uuid s) = Some 0
     \<and> m_skews s (m_uuid s, m_uuid s) = Some 0
     \<and> (\<exists>set_at. m_weights s (m_uuid s, m_uuid s) = Some (1, set_at))
     \<and> m_queries s (m_uuid s, m_uuid s) = None"

text \<open>Every index of the offset table has a weight and a round of its last response.\<close>

definition tables_total :: "CClockSynchronizer \<Rightarrow> bool" where
  "tables_total s \<longleftrightarrow>
     (\<forall>i. map_of (m_offsets s) i \<noteq> None \<longrightarrow> m_weights s i \<noteq> None \<and> m_lastresponse s i \<noteq> None)"

text \<open>Every response history has an even length of at most twice the bound.\<close>

definition responses_bounded :: "CClockSynchronizer \<Rightarrow> bool" where
  "responses_bounded s \<longleftrightarrow>
     (\<forall>i l. m_responses s i = Some l \<longrightarrow>
        even (length l) \<and> length l \<le> 2 * MAX_REGRESSION_ENTRIES)"

definition cs_inv :: "CClockSynchronizer \<Rightarrow> bool" where
  "cs_inv s \<longleftrightarrow> self_sane s \<and> tables_total s \<and> responses_bounded s"

text \<open>An event whose handler can read the time string of its message.\<close>

fun readable :: "cs_event \<Rightarrow> bool" where
  "readable (ResponseReceived now msg peer) = (erm_sendtime msg \<noteq> None)"
| "readable ev = True"

subsection \<open>A concrete run\<close>

text \<open>
  Node \<open>A\<close> is constructed at time 0. One second later it runs a round with the peer
  list \<open>A, B\<close>; 300 microseconds after the query, the response of \<open>B\<close> to round 0
  arrives, stamped 100 microseconds after the query, with a table entry for a node \<open>C\<close>.
\<close>

definition node_A :: CClockSynchronizer where
  "node_A = CClockSynchronizer_new ''A'' 0 0"

definition reply_B :: ExchangeResponseMessage where
  "reply_B =
     \<lparr>erm_response = 0, erm_sendtime = Some 1000100,
      erm_table = [\<lparr>te_uuid = ''C'', te_offset_secs = 0, te_offset_fracs = 250,
                     te_skew = 0, te_weight = 1\<rparr>]\<rparr>"

definition first_round :: "cs_event list" where
  "first_round = [ExchangeTick False [''A'', ''B''] 1000000]"

definition round_trip :: "cs_event list" where
  "round_trip = first_round @ [ResponseReceived 1000300 reply_B ''B'']"

section \<open>Load balancer: lbAgent\<close>

text \<open>
  The peer sets are \<open>std::map\<close>s from a uuid to a peer node; a set is modelled by the
  list of its uuids, each once.
  The device manager is modelled by the devices of each type, each device by the settings
  that \<open>Set\<close> has written to it. \<open>front()\<close> of an empty container and a call through
  a null peer pointer are undefined in C++; the model stops there with an error. Sending
  is recorded in \<open>lb_sent\<close> and does not fail; of the log, the warnings are recorded. The
  class declaration (LoadBalance.hpp) is not among the sources; \<open>m_PStar\<close> and
  \<open>m_DemandVal\<close> are real numbers.
\<close>

definition P_Migrate :: real where "P_Migrate = 1"

datatype Status = SUPPLY | NORM | DEMAND

datatype DeviceType = SST | DESD | DG | DRER | LOAD | GRID

datatype lb_error = EmptyContainerFront | NullPeer | BadPath | BadCast

type_synonym device = "string \<rightharpoonup> real"

text \<open>
  A message as \<open>HandleRead\<close> reads it: the source, and the entries of the property
  tree, \<open>None\<close> where the path does not exist. An entry of \<open>CollectedState.gateway\<close> is
  \<open>None\<close> where \<open>lexical_cast<double>\<close> throws on it.
\<close>

record lb_message =
  msg_source :: string
  msg_any :: "string option"
  msg_any_peers :: "string list option"
  msg_lb :: "string option"
  msg_lb_source :: "string option"
  msg_lb_value :: "string option"
  msg_gateway :: "real option list option"
  msg_intransit :: "string list option"

datatype lb_sent_message = LbText string | LbAccept real | ScRequest

record lbAgent =
  lb_uuid :: string
  m_AllPeers :: "string list"
  m_HiNodes :: "string list"
  m_NoNodes :: "string list"
  m_LoNodes :: "string list"
  m_Leader :: string
  m_Status :: Status
  m_DemandVal :: real
  m_PStar :: real
  m_devices :: "DeviceType \<Rightarrow> device list"
  lb_sent :: "(string \<times> lb_sent_message) list"
  lb_warnings :: "string list"

subsection \<open>Device commands\<close>

text \<open>\<open>Container.front()->Set(key, value)\<close> on the devices of a type.\<close>

definition front_Set :: "DeviceType \<Rightarrow> string \<Rightarrow> real \<Rightarrow> lbAgent \<Rightarrow> lb_error + lbAgent" where
  "front_Set ty key val s =
     (case m_devices s ty of
        [] \<Rightarrow> Inl EmptyContainerFront
      | d # ds \<Rightarrow> Inr (s\<lparr>m_devices := (m_devices s)(ty := d(key \<mapsto> val) # ds)\<rparr>))"

subsection \<open>The constructor\<close>

text \<open>
  The constructor does not assign \<open>m_Status\<close> and \<open>m_DemandVal\<close>: \<open>status0\<close> and
  \<open>demand0\<close> are what they hold.
\<close>

definition lbAgent_new ::
  "string \<Rightarrow> Status \<Rightarrow> real \<Rightarrow> (DeviceType \<Rightarrow> device list) \<Rightarrow> lb_error + lbAgent" where
  "lbAgent_new uuid status0 demand0 devs =
     (let s0 = \<lparr>lb_uuid = uuid, m_AllPeers = [uuid], m_HiNodes = [], m_NoNodes = [],
                m_LoNodes = [], m_Leader = uuid, m_Status = status0, m_DemandVal = demand0,
                m_PStar = 0, m_devices = devs, lb_sent = [], lb_warnings = []\<rparr>
      in case front_Set DESD ''onOffSwitch'' 0 s0 of
           Inl e \<Rightarrow> Inl e
         | Inr s1 \<Rightarrow>
             (case front_Set DG ''onOffSwitch'' 1 s1 of
                Inl e \<Rightarrow> Inl e
              | Inr s2 \<Rightarrow> Inr (s2\<lparr>m_PStar := 0\<rparr>)))"

subsection \<open>Peers and sending\<close>

definition add_peer :: "string \<Rightarrow> lbAgent \<Rightarrow> lbAgent" where
  "add_peer uuid s =
     s\<lparr>m_AllPeers := List.insert uuid (m_AllPeers s),
       m_NoNodes := List.insert uuid (m_NoNodes s)\<rparr>"

text \<open>\<open>get_peer(GetUUID())->Send\<close>: the pointer is null when this node is not in the set.\<close>

definition CollectState :: "lbAgent \<Rightarrow> lb_error + lbAgent" where
  "CollectState s =
     (if lb_uuid s \<in> set (m_AllPeers s)
      then Inr (s\<lparr>lb_sent := lb_sent s @ [(lb_uuid s, ScRequest)]\<rparr>)
      else Inl NullPeer)"

text \<open>The peer is erased from the three load sets and inserted into one of them.\<close>

definition classify_peer :: "string \<Rightarrow> Status \<Rightarrow> lbAgent \<Rightarrow> lbAgent" where
  "classify_peer peer st s =
     (let s1 = s\<lparr>m_HiNodes := removeAll peer (m_HiNodes s),
                 m_NoNodes := removeAll peer (m_NoNodes s),
                 m_LoNodes := removeAll peer (m_LoNodes s)\<rparr>
      in case st of
           DEMAND \<Rightarrow> s1\<lparr>m_HiNodes := List.insert peer (m_HiNodes s1)\<rparr>
         | NORM \<Rightarrow> s1\<lparr>m_NoNodes := List.insert peer (m_NoNodes s1)\<rparr>
         | SUPPLY \<Rightarrow> s1\<lparr>m_LoNodes := List.insert peer (m_LoNodes s1)\<rparr>)"

subsection \<open>Step_PStar\<close>

definition Step_PStar :: "lbAgent \<Rightarrow> lb_error + lbAgent" where
  "Step_PStar s =
     (if m_Status s = DEMAND then
        (let s1 = s\<lparr>m_PStar := m_PStar s - P_Migrate\<rparr>
         in front_Set SST ''level'' (m_PStar s1) s1)
      else if m_Status s = SUPPLY then
        (let s1 = s\<lparr>m_PStar := m_PStar s + P_Migrate\<rparr>
         in front_Set SST ''level'' (m_PStar s1) s1)
      else Inr (s\<lparr>lb_warnings := lb_warnings s
                      @ [''Power migration aborted due to state change '']\<rparr>))"

subsection \<open>HandleRead\<close>

text \<open>The branch for a peer list from the group leader.\<close>

definition handle_peerlist :: "lb_message \<Rightarrow> lbAgent \<Rightarrow> lb_error + lbAgent" where
  "handle_peerlist msg s =
     (let s1 = s\<lparr>m_Leader := msg_source msg\<rparr>
      in case (if m_Leader s1 = lb_uuid s1 then CollectState s1 else Inr s1) of
           Inl e \<Rightarrow> Inl e
         | Inr s2 \<Rightarrow>
             (let keep = filter (\<lambda>p. p = lb_uuid s2);
                  s3 = s2\<lparr>m_AllPeers := keep (m_AllPeers s2),
                          m_HiNodes := filter (\<lambda>p. p \<notin> set (m_AllPeers s2) \<or> p = lb_uuid s2)
                                         (m_HiNodes s2),
                          m_LoNodes := filter (\<lambda>p. p \<notin> set (m_AllPeers s2) \<or> p = lb_uuid s2)
                                         (m_LoNodes s2),
                          m_NoNodes := filter (\<lambda>p. p \<notin> set (m_AllPeers s2) \<or> p = lb_uuid s2)
                                         (m_NoNodes s2)\<rparr>
              in case msg_any_peers msg of
                   None \<Rightarrow> Inl BadPath
                 | Some peers \<Rightarrow>
                     Inr (fold (\<lambda>v u. if v \<in> set (m_AllPeers u) then u else add_peer v u)
                            peers s3)))"

text \<open>
  The branches for the messages of the drafting protocol. They are entered with the peer
  node of the source, which is null when the source is this node itself.
\<close>

definition handle_draft :: "string \<Rightarrow> lb_message \<Rightarrow> string \<Rightarrow> lbAgent \<Rightarrow> lb_error + lbAgent" where
  "handle_draft kind msg peer s =
     (if kind = ''demand'' \<or> kind = ''normal'' \<or> kind = ''supply'' then
        (case msg_lb_source msg of
           None \<Rightarrow> Inl BadPath
         | Some src \<Rightarrow>
             Inr (classify_peer peer
                    (if kind = ''demand'' then DEMAND
                     else if kind = ''normal'' then NORM else SUPPLY) s))
      else if kind = ''request'' then
        (let s1 = classify_peer peer SUPPLY s
         in Inr (s1\<lparr>lb_sent := lb_sent s1
                      @ [(peer, LbText (if m_Status s1 = DEMAND then ''yes'' else ''no''))]\<rparr>))
      else if kind = ''yes'' then
        (if m_Status s = SUPPLY
         then Inr (s\<lparr>lb_sent := lb_sent s @ [(peer, LbText ''drafting'')]\<rparr>)
         else Inr s)
      else if kind = ''no'' then Inr s
      else if kind = ''drafting'' then
        (if m_Status s = DEMAND
         then Inr (s\<lparr>lb_sent := lb_sent s @ [(peer, LbAccept (m_DemandVal s))]\<rparr>)
         else Inr s)
      else
        \<comment> \<open>\<open>kind = ''accept''\<close>: \<open>Step_PStar\<close> is commented out on both sides\<close>
        (case msg_lb_value msg of
           None \<Rightarrow> Inl BadPath
         | Some val \<Rightarrow>
             if m_Status s = SUPPLY
             then Inr (s\<lparr>lb_warnings := lb_warnings s
                            @ [''Migrating power on request from: '' @ peer]\<rparr>)
             else Inr (s\<lparr>lb_warnings := lb_warnings s @ [''Unexpected Accept message'']\<rparr>)))"

text \<open>The branch for the collected state: the sum is a local variable.\<close>

definition handle_collected :: "lb_message \<Rightarrow> lbAgent \<Rightarrow> lb_error + lbAgent" where
  "handle_collected msg s =
     (case msg_gateway msg of
        None \<Rightarrow> Inl BadPath
      | Some vals \<Rightarrow> if None \<in> set vals then Inl BadCast else Inr s)"

definition draft_kinds :: "string list" where
  "draft_kinds = [''demand'', ''normal'', ''supply'', ''request'', ''yes'', ''no'', ''drafting'',
                  ''accept'']"

definition HandleRead :: "lb_message \<Rightarrow> lbAgent \<Rightarrow> lb_error + lbAgent" where
  "HandleRead msg s =
     (let source = msg_source msg;
          s1 = (if source \<noteq> lb_uuid s
                then (if source \<in> set (m_AllPeers s) then s else add_peer source s)
                else s);
          peer = (if source \<noteq> lb_uuid s then Some source else None)
      in if msg_any msg = Some ''PeerList'' then handle_peerlist msg s1
         else case msg_lb msg of
                None \<Rightarrow> Inr s1
              | Some kind \<Rightarrow>
                  if kind \<in> set draft_kinds then
                    (case peer of
                       None \<Rightarrow> Inl NullPeer
                     | Some p \<Rightarrow> handle_draft kind msg p s1)
                  else if kind = ''CollectedState'' then handle_collected msg s1
                  else Inr (s1\<lparr>lb_warnings := lb_warnings s1 @ [''Invalid Message Type'']\<rparr>))"

subsection \<open>Concrete load balancers and messages\<close>

definition one_each :: "DeviceType \<Rightarrow> device list" where
  "one_each ty = [Map.empty]"

definition no_devices :: "DeviceType \<Rightarrow> device list" where
  "no_devices ty = []"

text \<open>Node \<open>A\<close> in supply state with one device of each type, as constructed.\<close>

definition supplier :: lbAgent where
  "supplier =
     \<lparr>lb_uuid = ''A'', m_AllPeers = [''A''], m_HiNodes = [], m_NoNodes = [], m_LoNodes = [],
      m_Leader = ''A'', m_Status = SUPPLY, m_DemandVal = 0, m_PStar = 0,
      m_devices = one_each(DESD := [[''onOffSwitch'' \<mapsto> 0]], DG := [[''onOffSwitch'' \<mapsto> 1]]),
      lb_sent = [], lb_warnings = []\<rparr>"

text \<open>The accept message of node \<open>B\<close> with the demand value 2.\<close>

definition accept_from_B :: lb_message where
  "accept_from_B =
     \<lparr>msg_source = ''B'', msg_any = None, msg_any_peers = None, msg_lb = Some ''accept'',
      msg_lb_source = Some ''B'', msg_lb_value = Some ''2'', msg_gateway = None,
      msg_intransit = None\<rparr>"

section \<open>Properties of the dispatch solver\<close>

lemmas dda_defs =
  HandleUpdate_def finish_round_def deltaPLambdaUpdate_def coupled_body_def local_body_def
  assign_body_def sendtoAdjList_def clear_adj_def accumulate_def inner_iter_def eta_def

lemmas desd_defs =
  aug_of_def pos_part_def desd_power_body_def copy_power_body_def residual_body_def
  dual_body_def copy_dual_body_def double_to_int_def rho_def delta_time_def P_max_desd_def
  P_min_desd_def E_init_def E_full_def eta_def

text \<open>The end of a round leaves the power, the residuals and the duals as they are.\<close>

lemma finish_round_frame:
  "m_nextpower (finish_round s) = m_nextpower s"
  "m_deltaP1 (finish_round s) = m_deltaP1 s"
  "m_deltaP2 (finish_round s) = m_deltaP2 s"
  "m_nextmu (finish_round s) = m_nextmu s"
  "m_nextxi (finish_round s) = m_nextxi s"
  "m_inimu (finish_round s) = m_inimu s"
  "m_inixi (finish_round s) = m_inixi s"
  by (simp_all add: finish_round_def deltaPLambdaUpdate_def coupled_body_def local_body_def
        assign_body_def sendtoAdjList_def Let_def)

lemma clear_adj_frame:
  "m_nextpower (clear_adj s) = m_nextpower s"
  "m_deltaP1 (clear_adj s) = m_deltaP1 s"
  "m_deltaP2 (clear_adj s) = m_deltaP2 s"
  "m_nextmu (clear_adj s) = m_nextmu s"
  "m_nextxi (clear_adj s) = m_nextxi s"
  "m_inimu (clear_adj s) = m_inimu s"
  "m_inixi (clear_adj s) = m_inixi s"
  by (simp_all add: clear_adj_def)

text \<open>
  A report that is not the last one of its round is added to the accumulators, and
  nothing else changes but the counter.
\<close>

lemma HandleUpdate_accumulates:
  assumes "iteration msg = m_iteration s" and "symbol msg \<in> set (m_localadj s)"
    and "m_adjnum s \<noteq> 1"
  shows "HandleUpdate msg s = accumulate msg (s\<lparr>m_adjnum := m_adjnum s - 1\<rparr>)"
  using assms by (simp add: HandleUpdate_def)

text \<open>
  The report that completes the round takes the \<open>else\<close> branch of
  \<open>if (m_adjnum != 0)\<close>: its six values are never read.
\<close>

lemma HandleUpdate_last_report_unread:
  assumes "m_adjnum s = 1"
  shows "HandleUpdate msg s =
         HandleUpdate (msg\<lparr>deltapstep1 := 0, deltapstep2 := 0, deltapstep3 := 0,
                            lambdastep1 := 0, lambdastep2 := 0, lambdastep3 := 0\<rparr>) s"
  using assms by (simp add: HandleUpdate_def)

text \<open>
  Claim C1 (every report of the current iteration from a neighbour is added to
  \<open>adj\<Delta>P\<close> and \<open>adj\<lambda>\<close>, the one that brings \<open>m_adjnum\<close> to zero included, before
  the consensus update fires). The code does not do this. The node \<open>leaf_agent ''3''\<close>
  waits for its only neighbour; the report \<open>report 4 1\<close> (\<open>\<Delta>P = 4\<close>, \<open>\<lambda> = 1\<close>) completes
  the round, the iteration advances to 1, and the result is the one of the all-zero
  report: the new \<open>\<Delta>P[0]\<close> is 0, where the consensus formula on the accumulated report
  gives \<open>1/2 \<cdot> 0 + 1/2 \<cdot> 4 + 0 - 0 = 2\<close>.
\<close>

theorem HandleUpdate_last_report_dropped:
  "HandleUpdate (report 4 1) (leaf_agent ''3'') = HandleUpdate (report 0 0) (leaf_agent ''3'')
   \<and> m_iteration (HandleUpdate (report 4 1) (leaf_agent ''3'')) = 1
   \<and> m_inideltaP (HandleUpdate (report 4 1) (leaf_agent ''3'')) 0 = 0
   \<and> m_localratio (leaf_agent ''3'') * m_inideltaP (leaf_agent ''3'') 0
       + m_adjratio (leaf_agent ''3'')
           * (m_adjdeltaP (leaf_agent ''3'') 0 + deltapstep1 (report 4 1))
       + m_inideltaP (leaf_agent ''3'') 0 - m_nextdeltaP (leaf_agent ''3'') 0 = 2"
  by (simp add: dda_defs leaf_agent_def report_def zero3_def)

text \<open>
  Claim C2, as stated, fails outside the multiples of 5: the claim keeps the factor
  \<open>localratio\<close> there, the code drops it together with the neighbour term. At
  \<open>inner_agent\<close> (iteration 1, \<open>localratio = 1/2\<close>, \<open>\<Delta>P[0] = 2\<close>, previous
  \<open>\<Delta>P_next[0] = 0\<close>) the code computes \<open>2 + 2 - 0 = 4\<close>, the claim's formula
  \<open>1/2 \<cdot> 2 + 2 - 0 = 3\<close>.
\<close>

theorem deltaPLambdaUpdate_inner_counterexample:
  "unat (m_iteration inner_agent) mod 5 \<noteq> 0
   \<and> m_nextdeltaP (deltaPLambdaUpdate inner_agent) 0 = 4
   \<and> m_localratio inner_agent * m_inideltaP inner_agent 0 + m_inideltaP inner_agent 0
       - m_nextdeltaP inner_agent 0 = 3"
  by (simp add: dda_defs inner_agent_def leaf_agent_def zero3_def)

text \<open>
  Claim C2, amended: on iterations with \<open>iteration mod 5 = 0\<close> the update is
  \<open>\<Delta>P_next = localratio \<cdot> \<Delta>P + adjratio \<cdot> adj\<Delta>P + \<Delta>P - \<Delta>P_next_prev\<close> and
  \<open>\<lambda>_next = localratio \<cdot> \<lambda> + adjratio \<cdot> adj\<Delta>P + \<eta> \<cdot> \<Delta>P\<close>; on every other iteration it is
  \<open>\<Delta>P_next = \<Delta>P + \<Delta>P - \<Delta>P_next_prev\<close> and \<open>\<lambda>_next = \<lambda> + \<eta> \<cdot> \<Delta>P\<close> (neither the
  neighbour term nor the factor \<open>localratio\<close>); the new values are committed to \<open>\<Delta>P\<close> and
  \<open>\<lambda>\<close>, and \<open>\<eta> = 1/2\<close>.
\<close>

theorem deltaPLambdaUpdate_formulas:
  assumes "i < 3"
  shows "m_nextdeltaP (deltaPLambdaUpdate s) i =
           (if unat (m_iteration s) mod 5 = 0
            then m_localratio s * m_inideltaP s i + m_adjratio s * m_adjdeltaP s i
                 + m_inideltaP s i - m_nextdeltaP s i
            else m_inideltaP s i + m_inideltaP s i - m_nextdeltaP s i)
         \<and> m_nextlambda (deltaPLambdaUpdate s) i =
           (if unat (m_iteration s) mod 5 = 0
            then m_localratio s * m_inilambda s i + m_adjratio s * m_adjdeltaP s i
                 + eta * m_inideltaP s i
            else m_inilambda s i + eta * m_inideltaP s i)
         \<and> m_inideltaP (deltaPLambdaUpdate s) i = m_nextdeltaP (deltaPLambdaUpdate s) i
         \<and> m_inilambda (deltaPLambdaUpdate s) i = m_nextlambda (deltaPLambdaUpdate s) i
         \<and> eta = 1 / 2"
proof -
  from assms consider "i = 0" | "i = 1" | "i = 2" by linarith
  then show ?thesis
    by cases
      (simp_all add: deltaPLambdaUpdate_def coupled_body_def local_body_def assign_body_def
         inner_iter_def eta_def)
qed

theorem deltaPLambdaUpdate_formulas_witness:
  "(0::nat) < 3
   \<and> m_nextdeltaP (deltaPLambdaUpdate inner_agent) 0 = 4
   \<and> m_nextlambda (deltaPLambdaUpdate inner_agent) 0 = 1
   \<and> m_inideltaP (deltaPLambdaUpdate inner_agent) 0 = 4
   \<and> m_inilambda (deltaPLambdaUpdate inner_agent) 0 = 1"
proof -
  have h: "(0::nat) < 3" by simp
  have v: "m_inideltaP inner_agent 0 = 2" "m_nextdeltaP inner_agent 0 = 0"
    "m_inilambda inner_agent 0 = 0" "unat (m_iteration inner_agent) mod 5 \<noteq> 0"
    by (simp_all add: inner_agent_def leaf_agent_def zero3_def)
  show ?thesis
    using deltaPLambdaUpdate_formulas [OF h, of inner_agent] v by simp
qed

text \<open>A pass of the power loop writes one entry of \<open>m_nextpower\<close> and nothing else.\<close>

lemma desd_power_body_shape:
  "\<exists>c x' y'. desd_power_body a1 a2 i (s, x, y)
              = (s\<lparr>m_nextpower := (m_nextpower s)(i := c)\<rparr>, x', y')"
  unfolding desd_power_body_def Let_def prod.case by blast

text \<open>
  The local computations of a storage node, for every state: the residuals are taken
  from the running sum of the committed power times 15, and each dual is the positive
  part of the sum \<open>dual + \<eta> \<cdot> residual\<close> after its conversion to \<open>int\<close>.
\<close>

lemma desd_local_duals:
  fixes s :: DDAAgent
  defines "L \<equiv> desd_local s"
  shows "m_deltaP1 L 0 = E_init 0 - E_full 0 - m_nextpower L 0 * 15"
    and "m_deltaP1 L 1 = E_init 1 - E_full 1 - (m_nextpower L 0 + m_nextpower L 1) * 15"
    and "m_deltaP1 L 2
         = E_init 2 - E_full 2 - (m_nextpower L 0 + m_nextpower L 1 + m_nextpower L 2) * 15"
    and "m_deltaP2 L 0 = m_nextpower L 0 * 15 - E_init 0"
    and "m_deltaP2 L 1 = (m_nextpower L 0 + m_nextpower L 1) * 15 - E_init 1"
    and "m_deltaP2 L 2 = (m_nextpower L 0 + m_nextpower L 1 + m_nextpower L 2) * 15 - E_init 2"
    and "i < 3 \<Longrightarrow> m_nextmu L i
           = max 0 (real_of_int (double_to_int (m_inimu s i + eta * m_deltaP1 L i)))"
    and "i < 3 \<Longrightarrow> m_nextxi L i
           = max 0 (real_of_int (double_to_int (m_inixi s i + eta * m_deltaP2 L i)))"
    and "i < 3 \<Longrightarrow> m_inimu L i = m_nextmu L i \<and> m_inixi L i = m_nextxi L i
               \<and> m_inipower L i = m_nextpower L i"
proof -
  define a1 where "a1 = aug_of (m_deltaP1 s)"
  define a2 where "a2 = aug_of (m_deltaP2 s)"
  define x0 where "x0 = m_inimu s 0 + m_inimu s 1 + m_inimu s 2"
  define y0 where "y0 = m_inixi s 0 + m_inixi s 1 + m_inixi s 2"
  obtain c0 x1 y1 where b0: "desd_power_body a1 a2 0 (s, x0, y0)
      = (s\<lparr>m_nextpower := (m_nextpower s)(0 := c0)\<rparr>, x1, y1)"
    using desd_power_body_shape by blast
  define u0 where "u0 = s\<lparr>m_nextpower := (m_nextpower s)(0 := c0)\<rparr>"
  obtain c1 x2 y2 where b1: "desd_power_body a1 a2 1 (u0, x1, y1)
      = (u0\<lparr>m_nextpower := (m_nextpower u0)(1 := c1)\<rparr>, x2, y2)"
    using desd_power_body_shape by blast
  define u1 where "u1 = u0\<lparr>m_nextpower := (m_nextpower u0)(1 := c1)\<rparr>"
  obtain c2 x3 y3 where b2: "desd_power_body a1 a2 2 (u1, x2, y2)
      = (u1\<lparr>m_nextpower := (m_nextpower u1)(2 := c2)\<rparr>, x3, y3)"
    using desd_power_body_shape by blast
  define s1 where "s1 = u1\<lparr>m_nextpower := (m_nextpower u1)(2 := c2)\<rparr>"
  have s1: "fst (fold (desd_power_body a1 a2) [0, 1, 2] (s, x0, y0)) = s1"
    by (simp only: fold_Cons fold_Nil o_apply id_apply fst_conv
          b0 [folded u0_def] b1 [folded u1_def] b2 [folded s1_def])
  have p1: "m_nextpower s1 0 = c0" "m_nextpower s1 (Suc 0) = c1" "m_nextpower s1 2 = c2"
    and m1: "m_inimu s1 = m_inimu s" "m_inixi s1 = m_inixi s"
    by (simp_all add: s1_def u1_def u0_def)
  define s2 where "s2 = fold copy_power_body [0, 1, 2] s1"
  have p2: "m_nextpower s2 = m_nextpower s1" "m_inimu s2 = m_inimu s" "m_inixi s2 = m_inixi s"
    "m_inipower s2 0 = c0" "m_inipower s2 (Suc 0) = c1" "m_inipower s2 2 = c2"
    by (simp_all add: s2_def copy_power_body_def p1 m1)
  define s3 where "s3 = fst (fold residual_body [0, 1, 2] (s2, 0))"
  have f3: "m_nextpower s3 = m_nextpower s1" "m_inimu s3 = m_inimu s" "m_inixi s3 = m_inixi s"
    "m_inipower s3 = m_inipower s2"
    by (simp_all add: s3_def residual_body_def Let_def p2)
  have p3: "m_deltaP1 s3 0 = E_init 0 - E_full 0 - c0 * 15"
    "m_deltaP1 s3 (Suc 0) = E_init (Suc 0) - E_full (Suc 0) - (c0 + c1) * 15"
    "m_deltaP1 s3 2 = E_init 2 - E_full 2 - (c0 + c1 + c2) * 15"
    "m_deltaP2 s3 0 = c0 * 15 - E_init 0"
    "m_deltaP2 s3 (Suc 0) = (c0 + c1) * 15 - E_init (Suc 0)"
    "m_deltaP2 s3 2 = (c0 + c1 + c2) * 15 - E_init 2"
    by (simp_all add: s3_def residual_body_def Let_def delta_time_def p2 p1)
  define s4 where "s4 = fold dual_body [0, 1, 2] s3"
  have f4: "m_nextpower s4 = m_nextpower s1" "m_deltaP1 s4 = m_deltaP1 s3"
    "m_deltaP2 s4 = m_deltaP2 s3" "m_inipower s4 = m_inipower s2"
    by (simp_all add: s4_def dual_body_def Let_def f3)
  have mu: "m_nextmu s4 k
       = max 0 (real_of_int (double_to_int (m_inimu s k + eta * m_deltaP1 s3 k)))"
    and xi: "m_nextxi s4 k
       = max 0 (real_of_int (double_to_int (m_inixi s k + eta * m_deltaP2 s3 k)))"
    if "k = 0 \<or> k = Suc 0 \<or> k = 2" for k
    using that by (auto simp: s4_def dual_body_def Let_def f3 max_def)
  have L: "L = fold copy_dual_body [0, 1, 2] s4"
    unfolding L_def desd_local_def Let_def s4_def s3_def s2_def s1 [symmetric]
      a1_def a2_def x0_def y0_def ..
  have fL: "m_nextpower L = m_nextpower s1" "m_deltaP1 L = m_deltaP1 s3"
    "m_deltaP2 L = m_deltaP2 s3" "m_nextmu L = m_nextmu s4" "m_nextxi L = m_nextxi s4"
    "m_inipower L = m_inipower s2"
    by (simp_all add: L copy_dual_body_def f4)
  have cL: "m_inimu L k = m_nextmu s4 k \<and> m_inixi L k = m_nextxi s4 k"
    if "k = 0 \<or> k = Suc 0 \<or> k = 2" for k
    using that by (auto simp: L copy_dual_body_def)
  have three: "k = 0 \<or> k = Suc 0 \<or> k = 2" if "k < 3" for k :: nat
    using that by linarith
  show "m_deltaP1 L 0 = E_init 0 - E_full 0 - m_nextpower L 0 * 15"
    and "m_deltaP1 L 1 = E_init 1 - E_full 1 - (m_nextpower L 0 + m_nextpower L 1) * 15"
    and "m_deltaP1 L 2
         = E_init 2 - E_full 2 - (m_nextpower L 0 + m_nextpower L 1 + m_nextpower L 2) * 15"
    and "m_deltaP2 L 0 = m_nextpower L 0 * 15 - E_init 0"
    and "m_deltaP2 L 1 = (m_nextpower L 0 + m_nextpower L 1) * 15 - E_init 1"
    and "m_deltaP2 L 2 = (m_nextpower L 0 + m_nextpower L 1 + m_nextpower L 2) * 15 - E_init 2"
    by (simp_all add: fL p3 p1)
  show "m_nextmu L i
           = max 0 (real_of_int (double_to_int (m_inimu s i + eta * m_deltaP1 L i)))"
    if "i < 3"
    using mu [OF three [OF that]] by (simp add: fL)
  show "m_nextxi L i
           = max 0 (real_of_int (double_to_int (m_inixi s i + eta * m_deltaP2 L i)))"
    if "i < 3"
    using xi [OF three [OF that]] by (simp add: fL)
  show "m_inimu L i = m_nextmu L i \<and> m_inixi L i = m_nextxi L i
               \<and> m_inipower L i = m_nextpower L i"
    if "i < 3"
    using cL [OF three [OF that]] three [OF that] p2 p1 by (auto simp: fL)
qed

text \<open>The report that completes the round of a storage node runs these computations.\<close>

lemma HandleUpdate_desd_round:
  assumes "iteration msg = m_iteration s" and "symbol msg \<in> set (m_localadj s)"
    and "m_adjnum s = 1"
    and "m_localsymbol s = ''4'' \<or> m_localsymbol s = ''7'' \<or> m_localsymbol s = ''10''"
  shows "HandleUpdate msg s = clear_adj (finish_round (desd_local (s\<lparr>m_adjnum := 0\<rparr>)))"
  using assms by (auto simp: HandleUpdate_def desd_update_def)

text \<open>
  Claim C3 (after the storage update the residuals are
  \<open>\<Delta>P1 = E_init - E_full - cumulative energy\<close> and \<open>\<Delta>P2 = cumulative energy - E_init\<close>,
  and the duals are projected over the reals, \<open>\<mu>_next = max 0 (\<mu> + \<eta> \<cdot> \<Delta>P1)\<close>). The
  residuals are as claimed; the projection is not: the sum is first stored in an
  \<open>int\<close>, which discards its fractional part. At \<open>desd_agent\<close> the committed power of
  slot 0 is \<open>- 1/2\<close>, so \<open>\<Delta>P1[0] = 1 - 5 + 15/2 = 7/2\<close> and \<open>\<Delta>P2[0] = - 17/2\<close>; with
  \<open>\<mu>[0] = 0\<close> the claim gives \<open>\<mu>_next[0] = 7/4\<close>, the code stores 1.
\<close>

theorem HandleUpdate_dual_truncated:
  "m_nextpower (HandleUpdate (report 0 0) desd_agent) 0 = - 1 / 2
   \<and> m_deltaP1 (HandleUpdate (report 0 0) desd_agent) 0 = 7 / 2
   \<and> m_deltaP2 (HandleUpdate (report 0 0) desd_agent) 0 = - 17 / 2
   \<and> m_nextmu (HandleUpdate (report 0 0) desd_agent) 0 = 1
   \<and> m_inimu (HandleUpdate (report 0 0) desd_agent) 0 = 1
   \<and> max 0 (m_inimu desd_agent 0
              + eta * m_deltaP1 (HandleUpdate (report 0 0) desd_agent) 0) = 7 / 4"
proof -
  have step: "HandleUpdate (report 0 0) desd_agent
              = clear_adj (finish_round (desd_local (desd_agent\<lparr>m_adjnum := 0\<rparr>)))"
    by (simp add: HandleUpdate_def desd_update_def desd_agent_def leaf_agent_def report_def)
  have loc:
    "m_nextpower (desd_local (desd_agent\<lparr>m_adjnum := 0\<rparr>)) 0 = - 1 / 2"
    "m_deltaP1 (desd_local (desd_agent\<lparr>m_adjnum := 0\<rparr>)) 0 = 7 / 2"
    "m_deltaP2 (desd_local (desd_agent\<lparr>m_adjnum := 0\<rparr>)) 0 = - 17 / 2"
    "m_nextmu (desd_local (desd_agent\<lparr>m_adjnum := 0\<rparr>)) 0 = 1"
    "m_inimu (desd_local (desd_agent\<lparr>m_adjnum := 0\<rparr>)) 0 = 1"
    by (simp_all add: desd_local_def Let_def)
       (simp_all add: desd_defs desd_agent_def leaf_agent_def zero3_def Let_def split_def)
  have old: "m_inimu desd_agent 0 = 0"
    by (simp add: desd_agent_def leaf_agent_def zero3_def)
  show ?thesis
    unfolding step by (simp add: finish_round_frame clear_adj_frame loc old eta_def)
qed

section \<open>Properties of the plug-and-play adapter\<close>

text \<open>The loop reads the words of the text line by line.\<close>

lemma scan_states_lines:
  "scan_states cast ident info ws temp = scan_lines cast ident info (triples ws) temp"
  by (induction cast ident info ws temp rule: scan_states.induct)
     (simp_all add: line_index_def fun_upd_def split: option.splits)

text \<open>
  A good prefix of the lines is read without a reply and fills \<open>temp\<close> at the indices
  of its lines.
\<close>

lemma scan_lines_prefix:
  assumes "list_all (\<lambda>t. line_index ident info t \<noteq> None \<and> cast (snd (snd t)) \<noteq> None) pre"
    and "distinct (map (line_index ident info) pre)"
    and "\<forall>t\<in>set pre. \<forall>k. line_index ident info t = Some k \<longrightarrow> temp k = None"
  shows "\<exists>temp'. scan_lines cast ident info (pre @ rest) temp = scan_lines cast ident info rest temp'
              \<and> dom temp' = dom temp \<union> {k. Some k \<in> line_index ident info ` set pre}"
  using assms
proof (induction pre arbitrary: temp)
  case Nil
  show ?case by (rule exI [of _ temp]) simp
next
  case (Cons t pre)
  from Cons.prems obtain k v where k: "line_index ident info t = Some k"
    and v: "cast (snd (snd t)) = Some v" by auto
  from Cons.prems k have free: "temp k = None" by simp
  have later: "\<forall>u\<in>set pre. \<forall>j. line_index ident info u = Some j \<longrightarrow> (temp(k \<mapsto> v)) j = None"
  proof (intro ballI allI impI)
    fix u j assume u: "u \<in> set pre" and j: "line_index ident info u = Some j"
    from Cons.prems(2) u k j have "j \<noteq> k" by (auto simp: image_iff)
    moreover from Cons.prems(3) u j have "temp j = None" by simp
    ultimately show "(temp(k \<mapsto> v)) j = None" by simp
  qed
  from Cons.prems have "list_all (\<lambda>t. line_index ident info t \<noteq> None \<and> cast (snd (snd t)) \<noteq> None) pre"
    and "distinct (map (line_index ident info) pre)" by simp_all
  from Cons.IH [OF this later] obtain temp' where
    t': "scan_lines cast ident info (pre @ rest) (temp(k \<mapsto> v)) = scan_lines cast ident info rest temp'"
    and d': "dom temp' = dom (temp(k \<mapsto> v)) \<union> {j. Some j \<in> line_index ident info ` set pre}"
    by blast
  have "scan_lines cast ident info ((t # pre) @ rest) temp = scan_lines cast ident info rest temp'"
    using k v free t' by simp
  moreover have "dom temp' = dom temp \<union> {j. Some j \<in> line_index ident info ` set (t # pre)}"
    using d' k by auto
  ultimately show ?case by blast
qed

text \<open>The loop runs to its end exactly on good lines whose indices are not yet in \<open>temp\<close>.\<close>

lemma scan_lines_Scanned_iff:
  "(\<exists>temp'. scan_lines cast ident info ls temp = Scanned temp') \<longleftrightarrow>
     good_lines cast ident info ls
     \<and> (\<forall>t\<in>set ls. \<forall>k. line_index ident info t = Some k \<longrightarrow> temp k = None)"
proof (induction ls arbitrary: temp)
  case Nil
  then show ?case by (simp add: good_lines_def)
next
  case (Cons t ls)
  show ?case
  proof (cases "line_index ident info t")
    case None
    then show ?thesis by (simp add: good_lines_def)
  next
    case (Some k)
    note k = this
    show ?thesis
    proof (cases "cast (snd (snd t))")
      case None
      then show ?thesis using k by (simp add: good_lines_def)
    next
      case (Some v)
      show ?thesis
      proof (cases "temp k")
        case None
        have "(\<exists>temp'. scan_lines cast ident info (t # ls) temp = Scanned temp')
              \<longleftrightarrow> (\<exists>temp'. scan_lines cast ident info ls (temp(k \<mapsto> v)) = Scanned temp')"
          using k Some None by simp
        also have "\<dots> \<longleftrightarrow> good_lines cast ident info ls
            \<and> (\<forall>u\<in>set ls. \<forall>j. line_index ident info u = Some j \<longrightarrow> (temp(k \<mapsto> v)) j = None)"
          by (rule Cons.IH)
        also have "\<dots> \<longleftrightarrow> good_lines cast ident info (t # ls)
            \<and> (\<forall>u\<in>set (t # ls). \<forall>j. line_index ident info u = Some j \<longrightarrow> temp j = None)"
          using k Some None by (auto simp: good_lines_def image_iff list_all_iff)
        finally show ?thesis .
      next
        case (Some w)
        then show ?thesis using k \<open>cast (snd (snd t)) = Some v\<close> by auto
      qed
    qed
  qed
qed

text \<open>\<open>ReadStatePacket\<close> in terms of the lines of its text.\<close>

lemma ReadStatePacket_cases:
  "ReadStatePacket cast now packet s =
     (case scan_lines cast (m_identifier s) (m_stateInfo s) (triples (tokens packet)) Map.empty of
        UnknownDevice \<Rightarrow> Inr (''UnknownDevice'' @ crlf2, s)
      | DuplicateDevice \<Rightarrow> Inr (''DuplicateDevice'' @ crlf2, s)
      | CastThrows \<Rightarrow> Inl BadLexicalCast
      | Scanned temp \<Rightarrow>
          Inr (''Received'' @ crlf2,
               (if m_initialized s
                then s\<lparr>m_rxBuffer := m_rxBuffer s ++ temp\<rparr>
                else s\<lparr>m_rxBuffer := m_rxBuffer s ++ temp, m_initialized := True,
                       m_command := Some (now + 2000)\<rparr>)))"
  by (simp add: ReadStatePacket_def scan_states_lines Let_def split: scan_result.splits)

text \<open>The reply is \<open>Received\<close> exactly on good lines.\<close>

lemma ReadStatePacket_Received_iff:
  "(\<exists>s'. ReadStatePacket cast now packet s = Inr (''Received'' @ crlf2, s'))
     \<longleftrightarrow> good_lines cast (m_identifier s) (m_stateInfo s) (triples (tokens packet))"
proof -
  have "(\<exists>s'. ReadStatePacket cast now packet s = Inr (''Received'' @ crlf2, s'))
     \<longleftrightarrow> (\<exists>temp'. scan_lines cast (m_identifier s) (m_stateInfo s) (triples (tokens packet)) Map.empty = Scanned temp')"
    by (auto simp: ReadStatePacket_cases split: scan_result.splits)
  then show ?thesis by (simp add: scan_lines_Scanned_iff)
qed

text \<open>After a good prefix, the next line decides the reply when it fails.\<close>

lemma ReadStatePacket_first_failure:
  assumes ls: "triples (tokens packet) = pre @ t # post"
    and pre: "good_lines cast (m_identifier s) (m_stateInfo s) pre"
  shows "(line_index (m_identifier s) (m_stateInfo s) t = None
            \<longrightarrow> ReadStatePacket cast now packet s = Inr (''UnknownDevice'' @ crlf2, s))
       \<and> (line_index (m_identifier s) (m_stateInfo s) t \<noteq> None \<and> cast (snd (snd t)) = None
            \<longrightarrow> ReadStatePacket cast now packet s = Inl BadLexicalCast)
       \<and> (line_index (m_identifier s) (m_stateInfo s) t \<noteq> None \<and> cast (snd (snd t)) \<noteq> None
          \<and> line_index (m_identifier s) (m_stateInfo s) t
               \<in> line_index (m_identifier s) (m_stateInfo s) ` set pre
            \<longrightarrow> ReadStatePacket cast now packet s = Inr (''DuplicateDevice'' @ crlf2, s))"
proof -
  from pre have "list_all (\<lambda>t. line_index (m_identifier s) (m_stateInfo s) t \<noteq> None
                              \<and> cast (snd (snd t)) \<noteq> None) pre"
    and "distinct (map (line_index (m_identifier s) (m_stateInfo s)) pre)"
    by (simp_all add: good_lines_def)
  from scan_lines_prefix [OF this, of Map.empty "t # post"] obtain temp' where
    run: "scan_lines cast (m_identifier s) (m_stateInfo s) (pre @ t # post) Map.empty
          = scan_lines cast (m_identifier s) (m_stateInfo s) (t # post) temp'"
    and dom: "dom temp' = {k. Some k \<in> line_index (m_identifier s) (m_stateInfo s) ` set pre}"
    by auto
  have seen: "temp' k \<noteq> None \<longleftrightarrow> Some k \<in> line_index (m_identifier s) (m_stateInfo s) ` set pre" for k
    using dom by (auto simp: dom_def)
  show ?thesis
  proof (cases "line_index (m_identifier s) (m_stateInfo s) t")
    case None
    then show ?thesis by (simp add: ReadStatePacket_cases ls run)
  next
    case (Some k)
    note k = this
    show ?thesis
    proof (cases "cast (snd (snd t))")
      case None
      then show ?thesis using k by (simp add: ReadStatePacket_cases ls run)
    next
      case (Some v)
      have "temp' k \<noteq> None"
        if "line_index (m_identifier s) (m_stateInfo s) t
              \<in> line_index (m_identifier s) (m_stateInfo s) ` set pre"
        using that seen [of k] k by simp
      then show ?thesis using k Some by (auto simp: ReadStatePacket_cases ls run)
    qed
  qed
qed

text \<open>Evaluation of the concrete packets and sessions.\<close>

lemmas packet_defs =
  packet_a12_def packet_badcast_def packet_bogus_def packet_empty_def line_def tokens_def
  is_space_def

lemmas arm_eval_defs =
  HandleMessage_def first_token_def Heartbeat_def ReadStatePacket_def board_session_def
  decimal_cast_def crlf2_def

text \<open>\<open>ReadStatePacket\<close> does not touch the heartbeat timer.\<close>

lemma ReadStatePacket_heartbeat:
  "ReadStatePacket cast now packet s = Inr (response, s') \<Longrightarrow> m_heartbeat s' = m_heartbeat s"
  by (auto simp: ReadStatePacket_cases split: scan_result.splits if_splits)

text \<open>
  The replies of \<open>ReadStatePacket\<close> in terms of the lines of the text it is handed
  (one or two words left over at the end are ignored). It replies \<open>Received\<close> exactly
  when the lines are good. Otherwise the first line that fails decides: after a good
  prefix the reply is \<open>UnknownDevice\<close> when the name of the next line is not registered,
  the conversion throws (no reply) when the name is registered and the value does not
  convert, and the reply is \<open>DuplicateDevice\<close> when the index of the next line is the
  index of an earlier line. \<open>HandleMessage\<close> answers \<open>UnknownHeader\<close> to a text whose
  first word is neither \<open>DeviceStates\<close> nor \<open>PoliteDisconnect\<close>.
\<close>

lemma ReadStatePacket_replies:
  "((\<exists>s'. ReadStatePacket cast now packet s = Inr (''Received'' @ crlf2, s'))
      \<longleftrightarrow> good_lines cast (m_identifier s) (m_stateInfo s) (triples (tokens packet)))
   \<and> (triples (tokens packet) = pre @ t # post
        \<and> good_lines cast (m_identifier s) (m_stateInfo s) pre \<longrightarrow>
        (line_index (m_identifier s) (m_stateInfo s) t = None
           \<longrightarrow> ReadStatePacket cast now packet s = Inr (''UnknownDevice'' @ crlf2, s))
      \<and> (line_index (m_identifier s) (m_stateInfo s) t \<noteq> None \<and> cast (snd (snd t)) = None
           \<longrightarrow> ReadStatePacket cast now packet s = Inl BadLexicalCast)
      \<and> (line_index (m_identifier s) (m_stateInfo s) t \<noteq> None \<and> cast (snd (snd t)) \<noteq> None
         \<and> line_index (m_identifier s) (m_stateInfo s) t
              \<in> line_index (m_identifier s) (m_stateInfo s) ` set pre
           \<longrightarrow> ReadStatePacket cast now packet s = Inr (''DuplicateDevice'' @ crlf2, s)))
   \<and> (first_token packet \<noteq> ''DeviceStates'' \<and> first_token packet \<noteq> ''PoliteDisconnect''
        \<longrightarrow> fst (HandleMessage cast now (Some packet) True s) = Some (''UnknownHeader'' @ crlf2))"
proof -
  have received: "(\<exists>s'. ReadStatePacket cast now packet s = Inr (''Received'' @ crlf2, s'))
      \<longleftrightarrow> good_lines cast (m_identifier s) (m_stateInfo s) (triples (tokens packet))"
    by (rule ReadStatePacket_Received_iff)
  have failure: "triples (tokens packet) = pre @ t # post
        \<and> good_lines cast (m_identifier s) (m_stateInfo s) pre \<longrightarrow>
        (line_index (m_identifier s) (m_stateInfo s) t = None
           \<longrightarrow> ReadStatePacket cast now packet s = Inr (''UnknownDevice'' @ crlf2, s))
      \<and> (line_index (m_identifier s) (m_stateInfo s) t \<noteq> None \<and> cast (snd (snd t)) = None
           \<longrightarrow> ReadStatePacket cast now packet s = Inl BadLexicalCast)
      \<and> (line_index (m_identifier s) (m_stateInfo s) t \<noteq> None \<and> cast (snd (snd t)) \<noteq> None
         \<and> line_index (m_identifier s) (m_stateInfo s) t
              \<in> line_index (m_identifier s) (m_stateInfo s) ` set pre
           \<longrightarrow> ReadStatePacket cast now packet s = Inr (''DuplicateDevice'' @ crlf2, s))"
  proof (intro impI, elim conjE)
    assume "triples (tokens packet) = pre @ t # post"
      and "good_lines cast (m_identifier s) (m_stateInfo s) pre"
    then show "(line_index (m_identifier s) (m_stateInfo s) t = None
           \<longrightarrow> ReadStatePacket cast now packet s = Inr (''UnknownDevice'' @ crlf2, s))
      \<and> (line_index (m_identifier s) (m_stateInfo s) t \<noteq> None \<and> cast (snd (snd t)) = None
           \<longrightarrow> ReadStatePacket cast now packet s = Inl BadLexicalCast)
      \<and> (line_index (m_identifier s) (m_stateInfo s) t \<noteq> None \<and> cast (snd (snd t)) \<noteq> None
         \<and> line_index (m_identifier s) (m_stateInfo s) t
              \<in> line_index (m_identifier s) (m_stateInfo s) ` set pre
           \<longrightarrow> ReadStatePacket cast now packet s = Inr (''DuplicateDevice'' @ crlf2, s))"
      by (rule ReadStatePacket_first_failure)
  qed
  have header: "first_token packet \<noteq> ''DeviceStates'' \<and> first_token packet \<noteq> ''PoliteDisconnect''
        \<longrightarrow> fst (HandleMessage cast now (Some packet) True s) = Some (''UnknownHeader'' @ crlf2)"
    by (simp add: HandleMessage_def Let_def)
  show ?thesis
    by (rule conjI [OF received conjI [OF failure header]])
qed

text \<open>
  Claim C6 (a \<open>DeviceStates\<close> packet is answered \<open>Received\<close> exactly when all its lines
  parse and no error case holds). The code does not do this. \<open>HandleMessage\<close> hands
  \<open>ReadStatePacket\<close> the whole text \<open>packet.str()\<close>, and the header with it: the header
  is read as the name of the first line, and every line after it is shifted by one word.
  The packet \<open>packet_a12\<close> has the header \<open>DeviceStates\<close> and the one line \<open>a v 12\<close>;
  the device \<open>a\<close> is registered for the session \<open>board_session\<close> and the value converts,
  so the line is good. The words are read as the line \<open>DeviceStates a v\<close>, the scoped
  name \<open>board:DeviceStates\<close> is not registered, and the answer is \<open>UnknownDevice\<close>;
  nothing is written to the rx buffer and the session stays uninitialized.
\<close>

theorem HandleMessage_header_read_as_name:
  "first_token packet_a12 = ''DeviceStates''
   \<and> good_lines decimal_cast (m_identifier board_session) (m_stateInfo board_session)
         [(''a'', ''v'', ''12'')]
   \<and> triples (tokens packet_a12) = [(''DeviceStates'', ''a'', ''v'')]
   \<and> m_stateInfo board_session (m_identifier board_session @ '':'' @ ''DeviceStates'') = None
   \<and> HandleMessage decimal_cast 0 (Some packet_a12) True board_session
       = (Some (''UnknownDevice'' @ crlf2), board_session)
   \<and> ''UnknownDevice'' @ crlf2 \<noteq> ''Received'' @ crlf2"
  by (simp add: packet_defs arm_eval_defs good_lines_def line_index_def)

text \<open>
  Claim C7, as stated, says that a malformed packet never resets the heartbeat timer.
  \<open>HandleMessage\<close> calls \<open>Heartbeat\<close> as soon as \<open>ReceiveData\<close> has returned, before it
  looks at the text: the packet \<open>packet_bogus\<close> with an unknown header, received at 3000
  by a session whose timer ends at 5000, moves the end to 8000, and the session is not
  removed at 5000.
\<close>

theorem HandleMessage_heartbeat_counterexample:
  "fst (HandleMessage decimal_cast 3000 (Some packet_bogus) True board_session)
     = Some (''UnknownHeader'' @ crlf2)
   \<and> m_heartbeat board_session = Some 5000
   \<and> m_heartbeat (snd (HandleMessage decimal_cast 3000 (Some packet_bogus) True board_session))
       = Some 8000
   \<and> \<not> m_removed (Timeout 5000
          (snd (HandleMessage decimal_cast 3000 (Some packet_bogus) True board_session)))"
  by (simp add: packet_defs arm_eval_defs Timeout_def)

text \<open>
  Claim C7, amended: while the heartbeat wait is pending and its deadline has not passed,
  every text that is received, well-formed or not (conversion error, truncated packet,
  unknown header) and whether or not the response can be sent, resets the timer to 5
  seconds from its arrival; only a failed receive leaves the session as it is. The session
  is removed when the deadline passes without a reset.
\<close>

theorem HandleMessage_heartbeat:
  assumes "m_heartbeat s = Some d" and "now < d"
  shows "m_heartbeat (snd (HandleMessage cast now (Some packet) send_ok s)) = Some (now + 5000)
       \<and> HandleMessage cast now None send_ok s = (None, s)
       \<and> (m_removed (Timeout t s) \<longleftrightarrow> m_removed s \<or> d \<le> t)"
proof -
  let ?s1 = "Heartbeat now s"
  have h1: "m_heartbeat ?s1 = Some (now + 5000)"
    using assms by (simp add: Heartbeat_def)
  have again: "m_heartbeat (Heartbeat now u) = Some (now + 5000)"
    if "m_heartbeat u = Some (now + 5000)" for u :: "'a CArmAdapter"
    using that by (simp add: Heartbeat_def)
  have "m_heartbeat (snd (HandleMessage cast now (Some packet) send_ok s)) = Some (now + 5000)"
  proof (cases "first_token packet = ''DeviceStates''")
    case True
    show ?thesis
    proof (cases "ReadStatePacket cast now packet ?s1")
      case (Inl e)
      then show ?thesis using True h1 by (simp add: HandleMessage_def Let_def)
    next
      case (Inr p)
      obtain response s2 where p: "p = (response, s2)" by (cases p)
      from Inr p have "m_heartbeat s2 = Some (now + 5000)"
        using ReadStatePacket_heartbeat [of cast now packet ?s1 response s2] h1 by simp
      then show ?thesis using True Inr p again [of s2]
        by (simp add: HandleMessage_def Let_def)
    qed
  next
    case False
    then show ?thesis using h1 again [of ?s1]
      by (simp add: HandleMessage_def Let_def)
  qed
  moreover have "HandleMessage cast now None send_ok s = (None, s)"
    by (simp add: HandleMessage_def)
  moreover have "m_removed (Timeout t s) \<longleftrightarrow> m_removed s \<or> d \<le> t"
    using assms by (simp add: Timeout_def)
  ultimately show ?thesis by (intro conjI)
qed

text \<open>The amended claim C7 at \<open>board_session\<close> and a packet whose value does not convert.\<close>

theorem HandleMessage_heartbeat_witness:
  "m_heartbeat board_session = Some 5000 \<and> (3000::nat) < 5000
   \<and> m_heartbeat (snd (HandleMessage decimal_cast 3000 (Some packet_badcast) True board_session))
       = Some 8000
   \<and> HandleMessage decimal_cast 3000 None True board_session = (None, board_session)
   \<and> m_removed (Timeout 5000 board_session)
   \<and> \<not> m_removed (Timeout 4999 board_session)"
proof -
  have h: "m_heartbeat board_session = Some 5000" "(3000::nat) < 5000"
    by (simp_all add: board_session_def)
  have r: "\<not> m_removed board_session"
    by (simp add: board_session_def)
  show ?thesis
    using h r HandleMessage_heartbeat [OF h, of decimal_cast packet_badcast True 5000]
      HandleMessage_heartbeat [OF h, of decimal_cast packet_badcast True 4999]
    by simp
qed

text \<open>
  Claim C10: a text with no complete line (fewer than three words, as the packet that
  consists of the header \<open>DeviceStates\<close> alone) is valid. \<open>ReadStatePacket\<close> returns
  \<open>Received\<close> and leaves the rx buffer as it is; when the session is not yet
  initialized it sets the flag and arms the command timer 2 seconds ahead, and changes
  nothing otherwise.
\<close>

theorem ReadStatePacket_no_lines:
  assumes "length (tokens packet) < 3"
  shows "ReadStatePacket cast now packet s
         = Inr (''Received'' @ crlf2,
                if m_initialized s then s
                else s\<lparr>m_initialized := True, m_command := Some (now + 2000)\<rparr>)
       \<and> m_rxBuffer (if m_initialized s then s
                      else s\<lparr>m_initialized := True, m_command := Some (now + 2000)\<rparr>)
         = m_rxBuffer s"
proof -
  from assms have "triples (tokens packet) = []"
    by (cases "tokens packet" rule: triples.cases) simp_all
  then show ?thesis
    by (simp add: ReadStatePacket_cases)
qed

text \<open>
  Claim C10 at the packet \<open>packet_empty\<close>, the header followed by the empty line, for
  \<open>ReadStatePacket\<close> and for \<open>HandleMessage\<close>.
\<close>

theorem ReadStatePacket_no_lines_witness:
  "length (tokens packet_empty) < 3
   \<and> ReadStatePacket decimal_cast 0 packet_empty board_session
       = Inr (''Received'' @ crlf2,
              board_session\<lparr>m_initialized := True, m_command := Some 2000\<rparr>)
   \<and> m_rxBuffer (board_session\<lparr>m_initialized := True, m_command := Some 2000\<rparr>)
       = m_rxBuffer board_session
   \<and> HandleMessage decimal_cast 0 (Some packet_empty) True board_session
       = (Some (''Received'' @ crlf2),
          board_session\<lparr>m_initialized := True, m_command := Some 2000,
                          m_heartbeat := Some 5000\<rparr>)"
proof -
  have h: "length (tokens packet_empty) < 3"
    by (simp add: packet_defs)
  have i: "\<not> m_initialized board_session"
    by (simp add: board_session_def)
  have f: "first_token packet_empty = ''DeviceStates''"
    by (simp add: first_token_def packet_defs)
  have hb: "Heartbeat 0 board_session = board_session\<lparr>m_heartbeat := Some 5000\<rparr>"
    by (simp add: Heartbeat_def board_session_def)
  note r = ReadStatePacket_no_lines [OF h, of decimal_cast 0]
  have "HandleMessage decimal_cast 0 (Some packet_empty) True board_session
       = (Some (''Received'' @ crlf2),
          board_session\<lparr>m_initialized := True, m_command := Some 2000,
                          m_heartbeat := Some 5000\<rparr>)"
    using r [of "board_session\<lparr>m_heartbeat := Some 5000\<rparr>"] f hb
    by (simp add: HandleMessage_def Let_def Heartbeat_def board_session_def)
  then show ?thesis
    using h i r [of board_session] by simp
qed

section \<open>Properties of the clock synchronizer\<close>

text \<open>What \<open>set_entry\<close> and \<open>touch_skew\<close> change.\<close>

lemma set_entry_fields [simp]:
  "map_of (m_offsets (set_entry now i c w f s)) = (map_of (m_offsets s))(i \<mapsto> c)"
  "m_skews (set_entry now i c w f s) = (m_skews s)(i \<mapsto> f)"
  "m_weights (set_entry now i c w f s) = (m_weights s)(i \<mapsto> (w, now))"
  "m_lastresponse (set_entry now i c w f s) = (m_lastresponse s)(i \<mapsto> m_kcounter s)"
  "m_uuid (set_entry now i c w f s) = m_uuid s"
  "m_queries (set_entry now i c w f s) = m_queries s"
  "m_responses (set_entry now i c w f s) = m_responses s"
  "m_kcounter (set_entry now i c w f s) = m_kcounter s"
  by (simp_all add: set_entry_def SetWeight_def Let_def AList.update_conv')

lemma touch_skew_fields [simp]:
  "m_offsets (touch_skew i s) = m_offsets s"
  "m_weights (touch_skew i s) = m_weights s"
  "m_lastresponse (touch_skew i s) = m_lastresponse s"
  "m_uuid (touch_skew i s) = m_uuid s"
  "m_queries (touch_skew i s) = m_queries s"
  "m_responses (touch_skew i s) = m_responses s"
  "m_kcounter (touch_skew i s) = m_kcounter s"
  by (simp_all add: touch_skew_def split: option.splits)

lemma touch_skew_skews:
  "m_skews (touch_skew i s) j = (if j = i \<and> m_skews s i = None then Some 0 else m_skews s j)"
  by (simp add: touch_skew_def split: option.splits)

text \<open>Creating a missing skew keeps the invariants.\<close>

lemma touch_skew_inv: "cs_inv s \<Longrightarrow> cs_inv (touch_skew i s)"
  by (auto simp: cs_inv_def self_sane_def tables_total_def responses_bounded_def touch_skew_skews)

text \<open>\<open>GetWeight\<close> does not throw on an index of the offset table.\<close>

lemma GetWeight_total':
  assumes "tables_total s" and "map_of (m_offsets s) i \<noteq> None"
  shows "\<exists>w. GetWeight s i = Inr w"
proof -
  from assms have "m_weights s i \<noteq> None" and "m_lastresponse s i \<noteq> None"
    unfolding tables_total_def by blast+
  then show ?thesis
    by (auto simp: GetWeight_def split: option.splits prod.splits)
qed

lemma GetWeight_touch [simp]: "GetWeight (touch_skew j s) i = GetWeight s i"
  by (simp add: GetWeight_def split: option.splits prod.splits)

text \<open>The loops over the offset table run to their end and keep the invariants.\<close>

lemma sum_offsets_inv:
  assumes "cs_inv s" and "\<forall>i\<in>fst ` set al. map_of (m_offsets s) i \<noteq> None"
  shows "\<exists>acc' s'. sum_offsets al acc s = Inr (acc', s') \<and> cs_inv s'
           \<and> m_uuid s' = m_uuid s \<and> m_offsets s' = m_offsets s
           \<and> m_queries s' = m_queries s \<and> m_responses s' = m_responses s"
  using assms
proof (induction al arbitrary: acc s)
  case Nil
  then show ?case by (cases acc) simp
next
  case (Cons a al)
  obtain i c where a: "a = (i, c)" by (cases a)
  obtain tmp1 tmp2 tmp3 where acc: "acc = (tmp1, tmp2, tmp3)" by (cases acc)
  from Cons.prems a have "map_of (m_offsets s) i \<noteq> None" by simp
  with Cons.prems(1) obtain w where w: "GetWeight s i = Inr w"
    using GetWeight_total' [of s i] by (auto simp: cs_inv_def)
  have inv1: "cs_inv (touch_skew i s)" using Cons.prems(1) by (rule touch_skew_inv)
  have keys: "\<forall>j\<in>fst ` set al. map_of (m_offsets (touch_skew i s)) j \<noteq> None"
    using Cons.prems(2) by simp
  from Cons.IH [OF inv1 keys] show ?case
    using a acc w by (simp add: Let_def)
qed

lemma table_entries_inv:
  assumes "cs_inv s" and "\<forall>i\<in>fst ` set al. map_of (m_offsets s) i \<noteq> None"
  shows "\<exists>tes s'. table_entries al s = Inr (tes, s') \<and> cs_inv s'
           \<and> m_uuid s' = m_uuid s \<and> m_offsets s' = m_offsets s"
  using assms
proof (induction al arbitrary: s)
  case Nil
  then show ?case by simp
next
  case (Cons a al)
  obtain i c where a: "a = (i, c)" by (cases a)
  from Cons.prems a have "map_of (m_offsets s) i \<noteq> None" by simp
  with Cons.prems(1) obtain w where w: "GetWeight s i = Inr w"
    using GetWeight_total' [of s i] by (auto simp: cs_inv_def)
  have inv1: "cs_inv (touch_skew i s)" using Cons.prems(1) by (rule touch_skew_inv)
  have keys: "\<forall>j\<in>fst ` set al. map_of (m_offsets (touch_skew i s)) j \<noteq> None"
    using Cons.prems(2) by simp
  from Cons.IH [OF inv1 keys] obtain tes s' where
    "table_entries al (touch_skew i s) = Inr (tes, s')" "cs_inv s'"
    "m_uuid s' = m_uuid s" "m_offsets s' = m_offsets s" by auto
  then show ?case
    using a w by (simp add: Let_def)
qed

lemma keys_present: "\<forall>i\<in>fst ` set al. map_of al i \<noteq> None"
  by (auto simp: map_of_eq_None_iff)

lemma HandleExchange_inv:
  assumes "cs_inv s"
  shows "\<exists>s'. HandleExchange now query peer s = Inr s' \<and> cs_inv s' \<and> m_uuid s' = m_uuid s"
proof -
  from table_entries_inv [OF assms keys_present [of "m_offsets s"]]
  obtain tes s1 where "table_entries (m_offsets s) s = Inr (tes, s1)" "cs_inv s1"
    "m_uuid s1 = m_uuid s" by auto
  then show ?thesis
    by (simp add: HandleExchange_def CreateExchangeResponse_def cs_inv_def self_sane_def
          tables_total_def responses_bounded_def)
qed

text \<open>New entries for other pairs, and the sane entry of the own pair, keep the invariants.\<close>

lemma set_entry_inv_other:
  assumes "cs_inv s" and "i \<noteq> (m_uuid s, m_uuid s)"
  shows "cs_inv (set_entry now i c w f s)"
  using assms
  by (auto simp: cs_inv_def self_sane_def tables_total_def responses_bounded_def)

lemma set_entry_inv_self:
  assumes "tables_total s" and "responses_bounded s"
    and "m_queries s (m_uuid s, m_uuid s) = None"
  shows "cs_inv (set_entry now (m_uuid s, m_uuid s) 0 1 0 s)"
  using assms
  by (auto simp: cs_inv_def self_sane_def tables_total_def responses_bounded_def)

text \<open>The loop over the table of a response: the entries it writes are for other nodes.\<close>

lemma table_loop_inv:
  assumes "cs_inv s"
  shows "\<exists>s'. table_loop now sender tes s = Inr s' \<and> cs_inv s' \<and> m_uuid s' = m_uuid s
            \<and> m_responses s' = m_responses s \<and> m_queries s' = m_queries s"
  using assms
proof (induction tes arbitrary: s)
  case Nil
  then show ?case by simp
next
  case (Cons te tes)
  show ?case
  proof (cases "te_uuid te = sender \<or> te_uuid te = m_uuid s")
    case True
    with Cons.IH [OF Cons.prems] show ?thesis by (simp add: Let_def)
  next
    case False
    define il where "il = (m_uuid s, te_uuid te)"
    define s1 where
      "s1 = (if map_of (m_offsets s) il = None then set_entry now il 0 0 0 s else s)"
    from False have il: "il \<noteq> (m_uuid s, m_uuid s)" by (simp add: il_def)
    have inv1: "cs_inv s1" and u1: "m_uuid s1 = m_uuid s"
      and r1: "m_responses s1 = m_responses s" and q1: "m_queries s1 = m_queries s"
      using Cons.prems il by (simp_all add: s1_def set_entry_inv_other)
    have "map_of (m_offsets s1) il \<noteq> None" by (simp add: s1_def)
    with inv1 obtain w where w: "GetWeight s1 il = Inr w"
      using GetWeight_total' [of s1 il] by (auto simp: cs_inv_def)
    define s2 where
      "s2 = (if w < te_weight te - 1 / 10
             then set_entry now il
                    (offset_of s1 (m_uuid s, sender)
                       + (te_offset_secs te * 1000000 + te_offset_fracs te))
                    (te_weight te - 1 / 10) (skew_of s1 (m_uuid s, sender) + te_skew te) s1
             else s1)"
    have inv2: "cs_inv s2" and u2: "m_uuid s2 = m_uuid s"
      and r2: "m_responses s2 = m_responses s" and q2: "m_queries s2 = m_queries s"
      using inv1 u1 r1 q1 il by (simp_all add: s2_def set_entry_inv_other)
    have "table_loop now sender (te # tes) s =
            (case GetWeight s1 il of
               Inl e \<Rightarrow> Inl e
             | Inr w \<Rightarrow>
                 table_loop now sender tes
                   (if w < te_weight te - 1 / 10
                    then set_entry now il
                           (offset_of s1 (m_uuid s, sender)
                              + (te_offset_secs te * 1000000 + te_offset_fracs te))
                           (te_weight te - 1 / 10)
                           (skew_of s1 (m_uuid s, sender) + te_skew te) s1
                    else s1))"
      using False unfolding il_def s1_def by (simp add: Let_def)
    then have step: "table_loop now sender (te # tes) s = table_loop now sender tes s2"
      by (simp add: w s2_def)
    from Cons.IH [OF inv2] show ?thesis
      unfolding step using u2 r2 q2 by simp
  qed
qed

text \<open>Two calls of \<open>pop_front\<close>.\<close>

lemma tl_tl_drop: "tl (tl xs) = drop 2 xs"
  by (simp add: numeral_2_eq_2 drop_Suc)

text \<open>
  A response to the outstanding query of its sender: the two samples are appended, the
  two oldest dropped beyond the bound, and the handler returns.
\<close>

lemma HandleExchangeResponse_accepted:
  assumes inv: "cs_inv s"
    and q: "m_queries s (m_uuid s, sender) = Some (k, challenge)"
    and k: "erm_response msg = k"
    and r: "erm_sendtime msg = Some resp"
  shows "\<exists>s'. HandleExchangeResponse now msg sender s = Inr s' \<and> cs_inv s'
            \<and> m_uuid s' = m_uuid s
            \<and> m_responses s' =
                (m_responses s)((m_uuid s, sender) \<mapsto>
                  (let l = (case m_responses s (m_uuid s, sender) of None \<Rightarrow> [] | Some l \<Rightarrow> l)
                           @ [(resp, challenge), (resp, now)]
                   in if length l > 2 * MAX_REGRESSION_ENTRIES then drop 2 l else l))"
proof -
  define ij where "ij = (m_uuid s, sender)"
  define old where "old = (case m_responses s ij of None \<Rightarrow> [] | Some l \<Rightarrow> l)"
  define l2 where "l2 = (old @ [(resp, challenge)]) @ [(resp, now)]"
  define l3 where "l3 = (if length l2 > MAX_REGRESSION_ENTRIES * 2 then tl (tl l2) else l2)"
  define s2 where
    "s2 = s\<lparr>m_queries := (m_queries s)(ij := None), m_responses := (m_responses s)(ij \<mapsto> l3)\<rparr>"
  obtain cij fij1 where reg: "regression now l3 = (cij, fij1)" by (cases "regression now l3")
  define s3 where "s3 = set_entry now ij cij 1 fij1 s2"
  from inv q have ij: "ij \<noteq> (m_uuid s, m_uuid s)"
    by (auto simp: cs_inv_def self_sane_def ij_def)
  from inv have "responses_bounded s" by (simp add: cs_inv_def)
  then have "even (length l) \<and> length l \<le> 2 * MAX_REGRESSION_ENTRIES"
    if "m_responses s ij = Some l" for l
    using that unfolding responses_bounded_def by blast
  then have old: "even (length old)" "length old \<le> 2 * MAX_REGRESSION_ENTRIES"
    by (auto simp: old_def split: option.splits)
  have l3: "even (length l3)" "length l3 \<le> 2 * MAX_REGRESSION_ENTRIES"
    using old by (auto simp: l3_def l2_def)
  have l3_drop: "l3 = (let l = old @ [(resp, challenge), (resp, now)]
                       in if length l > 2 * MAX_REGRESSION_ENTRIES then drop 2 l else l)"
    unfolding l3_def l2_def Let_def tl_tl_drop by (simp add: mult.commute)
  have inv2: "cs_inv s2"
    using inv l3 by (auto simp: s2_def cs_inv_def self_sane_def tables_total_def responses_bounded_def)
  have u2: "m_uuid s2 = m_uuid s" by (simp add: s2_def)
  have inv3: "cs_inv s3" unfolding s3_def using inv2 ij u2 by (simp add: set_entry_inv_other)
  have "HandleExchangeResponse now msg sender s =
          (case regression now l3 of
             (cij, fij1) \<Rightarrow> table_loop now sender (erm_table msg) (set_entry now ij cij 1 fij1 s2))"
    unfolding s2_def l3_def l2_def old_def ij_def
    using q k r by (simp add: HandleExchangeResponse_def Let_def)
  then have run: "HandleExchangeResponse now msg sender s
                  = table_loop now sender (erm_table msg) s3"
    by (simp add: reg s3_def)
  from table_loop_inv [OF inv3, of now sender "erm_table msg"] obtain s' where
    s': "table_loop now sender (erm_table msg) s3 = Inr s'" "cs_inv s'" "m_uuid s' = m_uuid s3"
    "m_responses s' = m_responses s3" by auto
  have "m_responses s3 = (m_responses s)(ij \<mapsto> l3)" by (simp add: s3_def s2_def)
  with s' u2 show ?thesis
    unfolding run l3_drop ij_def old_def by (simp add: s3_def)
qed

text \<open>\<open>HandleExchangeResponse\<close> throws only on a time string it cannot read.\<close>

lemma HandleExchangeResponse_inv:
  assumes inv: "cs_inv s"
  shows "HandleExchangeResponse now msg sender s = Inl BadTimeString \<and> erm_sendtime msg = None
       \<or> (\<exists>s'. HandleExchangeResponse now msg sender s = Inr s' \<and> cs_inv s'
                \<and> m_uuid s' = m_uuid s)"
proof (cases "erm_sendtime msg")
  case None
  then show ?thesis by (simp add: HandleExchangeResponse_def)
next
  case (Some resp)
  show ?thesis
  proof (cases "m_queries s (m_uuid s, sender)")
    case None
    then show ?thesis using Some inv by (simp add: HandleExchangeResponse_def)
  next
    case (Some q)
    obtain k challenge where q: "q = (k, challenge)" by (cases q)
    show ?thesis
    proof (cases "k = erm_response msg")
      case True
      have "m_queries s (m_uuid s, sender) = Some (k, challenge)" using Some q by simp
      from HandleExchangeResponse_accepted
             [OF inv this True [symmetric] \<open>erm_sendtime msg = Some resp\<close>, of now]
      obtain s' where "HandleExchangeResponse now msg sender s = Inr s'" "cs_inv s'"
        "m_uuid s' = m_uuid s" by blast
      then show ?thesis by blast
    next
      case False
      then show ?thesis using Some q \<open>erm_sendtime msg = Some resp\<close> inv
        by (simp add: HandleExchangeResponse_def)
    qed
  qed
qed

text \<open>The rotation of the peer list leaves this node out.\<close>

lemma rotate_body_apply:
  "rotate_body uuid p (a, b, f) =
     (if p = uuid then (a, b, True)
      else if f = False then (a, b @ [p], f) else (a @ [p], b, f))"
  by (simp add: rotate_body_def)

lemma rotate_fold_subset:
  "fold (rotate_body uuid) peers (a, b, f) = (a', b', f') \<Longrightarrow>
     set a' \<union> set b' \<subseteq> set a \<union> set b \<union> (set peers - {uuid})"
proof (induction peers arbitrary: a b f)
  case Nil
  then show ?case by auto
next
  case (Cons p peers)
  show ?case
  proof (cases "p = uuid")
    case True
    with Cons.prems have "fold (rotate_body uuid) peers (a, b, True) = (a', b', f')"
      by (simp add: rotate_body_apply)
    from Cons.IH [OF this] show ?thesis by auto
  next
    case False
    show ?thesis
    proof (cases f)
      case True
      with False Cons.prems have "fold (rotate_body uuid) peers (a @ [p], b, f) = (a', b', f')"
        by (simp add: rotate_body_apply)
      from Cons.IH [OF this] show ?thesis using False by auto
    next
      case False
      with \<open>p \<noteq> uuid\<close> Cons.prems have "fold (rotate_body uuid) peers (a, b @ [p], f) = (a', b', f')"
        by (simp add: rotate_body_apply)
      from Cons.IH [OF this] show ?thesis using \<open>p \<noteq> uuid\<close> by auto
    qed
  qed
qed

lemma query_order_not_self: "uuid \<notin> set (query_order uuid peers)"
proof -
  obtain a b f where "fold (rotate_body uuid) peers ([], [], False) = (a, b, f)"
    by (cases "fold (rotate_body uuid) peers ([], [], False)")
  with rotate_fold_subset [OF this] show ?thesis
    by (auto simp: query_order_def)
qed

text \<open>Queries to other nodes keep the invariants.\<close>

lemma query_fold_inv:
  assumes "cs_inv s" and "m_uuid s \<notin> set ps"
  shows "cs_inv (fold (query_body now) ps s) \<and> m_uuid (fold (query_body now) ps s) = m_uuid s"
  using assms
proof (induction ps arbitrary: s)
  case Nil
  then show ?case by simp
next
  case (Cons p ps)
  have "cs_inv (query_body now p s)" "m_uuid (query_body now p s) = m_uuid s"
    using Cons.prems
    by (auto simp: query_body_def cs_inv_def self_sane_def tables_total_def responses_bounded_def)
  with Cons.IH [of "query_body now p s"] Cons.prems show ?case by simp
qed

text \<open>\<open>Exchange\<close> returns and keeps the invariants; it does not touch the histories.\<close>

lemma Exchange_inv:
  assumes inv: "cs_inv s"
  shows "\<exists>s'. Exchange err peers now s = Inr s' \<and> cs_inv s' \<and> m_uuid s' = m_uuid s
            \<and> m_responses s' = m_responses s
            \<and> (\<not> err \<longrightarrow> m_queries s'
                  = m_queries (fold (query_body now) (query_order (m_uuid s) peers) s))"
proof (cases err)
  case True
  then show ?thesis using inv by (simp add: Exchange_def)
next
  case False
  define s1 where "s1 = fold (query_body now) (query_order (m_uuid s) peers) s"
  define s3 where
    "s3 = s1\<lparr>m_kcounter := m_kcounter s1 + 1,
              m_exchangetimer := Some (now + QUERY_INTERVAL * 1000)\<rparr>"
  define s4 where "s4 = set_entry now (m_uuid s, m_uuid s) 0 1 0 s3"
  have q1: "m_responses (fold (query_body now) ps u) = m_responses u" for ps u
    by (induction ps arbitrary: u) (simp_all add: query_body_def)
  from query_fold_inv [OF inv query_order_not_self, of now peers]
  have inv1: "cs_inv s1" and u1: "m_uuid s1 = m_uuid s" by (simp_all add: s1_def)
  have r1: "m_responses s1 = m_responses s" by (simp add: s1_def q1)
  have u3: "m_uuid s3 = m_uuid s" by (simp add: s3_def u1)
  have "tables_total s3" "responses_bounded s3" "m_queries s3 (m_uuid s3, m_uuid s3) = None"
    using inv1 u1
    by (simp_all add: s3_def cs_inv_def self_sane_def tables_total_def responses_bounded_def)
  from set_entry_inv_self [OF this, of now] have inv4: "cs_inv s4"
    by (simp add: s4_def u3)
  have f4: "m_uuid s4 = m_uuid s" "m_queries s4 = m_queries s1" "m_responses s4 = m_responses s"
    by (simp_all add: s4_def s3_def u1 r1)
  from sum_offsets_inv [OF inv4 keys_present [of "m_offsets s4"], of "(0, 0, 0)"]
  obtain acc' s5 where sum: "sum_offsets (m_offsets s4) (0, 0, 0) s4 = Inr (acc', s5)"
    and inv5: "cs_inv s5" and f5: "m_uuid s5 = m_uuid s4" "m_queries s5 = m_queries s4"
      "m_responses s5 = m_responses s4" by blast
  obtain tmp1 tmp2 tmp3 where acc': "acc' = (tmp1, tmp2, tmp3)" by (cases acc')
  define s6 where
    "s6 = (if tmp2 \<noteq> 0
           then s5\<lparr>m_myoffset := DoubleToTD (tmp1 / tmp2), ClockSkew := DoubleToTD (tmp1 / tmp2),
                   m_myskew := tmp3 / tmp2\<rparr>
           else s5)"
  have f6: "m_uuid s6 = m_uuid s" "m_queries s6 = m_queries s1" "m_responses s6 = m_responses s"
    using f5 f4 by (simp_all add: s6_def)
  have "tables_total s6" "responses_bounded s6" "m_queries s6 (m_uuid s6, m_uuid s6) = None"
    using inv5
    by (simp_all add: s6_def cs_inv_def self_sane_def tables_total_def responses_bounded_def)
  from set_entry_inv_self [OF this, of now]
  have inv7: "cs_inv (set_entry now (m_uuid s, m_uuid s) 0 1 0 s6)"
    by (simp add: f6)
  have "Exchange err peers now s = Inr (set_entry now (m_uuid s, m_uuid s) 0 1 0 s6)"
    using False u1 [unfolded s1_def] sum [unfolded s4_def s3_def s1_def]
    by (simp add: Exchange_def Let_def acc' s6_def)
  with inv7 f6 False show ?thesis by (simp add: s1_def)
qed

text \<open>The invariants hold after construction and along every run.\<close>

lemma CClockSynchronizer_new_inv: "cs_inv (CClockSynchronizer_new uuid k0 now)"
  by (simp add: CClockSynchronizer_new_def cs_inv_def self_sane_def tables_total_def
        responses_bounded_def Let_def)

lemma CClockSynchronizer_new_uuid [simp]: "m_uuid (CClockSynchronizer_new uuid k0 now) = uuid"
  by (simp add: CClockSynchronizer_new_def Let_def)

lemma cs_step_inv:
  assumes "cs_inv s" and "cs_step ev s = Inr s'"
  shows "cs_inv s' \<and> m_uuid s' = m_uuid s"
proof (cases ev)
  case (ExchangeTick err peers now)
  with Exchange_inv [OF assms(1), of err peers now] assms(2) show ?thesis by auto
next
  case (ExchangeReceived now query peer)
  with HandleExchange_inv [OF assms(1), of now query peer] assms(2) show ?thesis by auto
next
  case (ResponseReceived now msg peer)
  with HandleExchangeResponse_inv [OF assms(1), of now msg peer] assms(2) show ?thesis by auto
qed

lemma cs_run_inv:
  assumes "cs_inv s" and "cs_run evs s = Inr s'"
  shows "cs_inv s' \<and> m_uuid s' = m_uuid s"
  using assms
proof (induction evs arbitrary: s)
  case Nil
  then show ?case by simp
next
  case (Cons ev evs)
  from Cons.prems(2) obtain s1 where s1: "cs_step ev s = Inr s1" and r: "cs_run evs s1 = Inr s'"
    by (auto split: sum.splits)
  from cs_step_inv [OF Cons.prems(1) s1] have "cs_inv s1" "m_uuid s1 = m_uuid s" by simp_all
  with Cons.IH [OF _ r] show ?case by simp
qed

text \<open>Only a time string that cannot be read stops a run.\<close>

lemma cs_step_total:
  assumes "cs_inv s"
  shows "(\<exists>s'. cs_step ev s = Inr s') \<or> cs_step ev s = Inl BadTimeString"
proof (cases ev)
  case (ExchangeTick err peers now)
  with Exchange_inv [OF assms, of err peers now] show ?thesis by auto
next
  case (ExchangeReceived now query peer)
  with HandleExchange_inv [OF assms, of now query peer] show ?thesis by auto
next
  case (ResponseReceived now msg peer)
  with HandleExchangeResponse_inv [OF assms, of now msg peer] show ?thesis by auto
qed

lemma cs_run_total:
  assumes "cs_inv s" and "list_all readable evs"
  shows "\<exists>s'. cs_run evs s = Inr s'"
  using assms
proof (induction evs arbitrary: s)
  case Nil
  then show ?case by simp
next
  case (Cons ev evs)
  have "\<exists>s1. cs_step ev s = Inr s1"
  proof (cases ev)
    case (ExchangeTick err peers now)
    with Exchange_inv [OF Cons.prems(1), of err peers now] show ?thesis by auto
  next
    case (ExchangeReceived now query peer)
    with HandleExchange_inv [OF Cons.prems(1), of now query peer] show ?thesis by auto
  next
    case (ResponseReceived now msg peer)
    with Cons.prems(2) have "erm_sendtime msg \<noteq> None" by simp
    with HandleExchangeResponse_inv [OF Cons.prems(1), of now msg peer] ResponseReceived
    show ?thesis by auto
  qed
  then obtain s1 where s1: "cs_step ev s = Inr s1" by blast
  from cs_step_inv [OF Cons.prems(1) s1] have "cs_inv s1" by simp
  from Cons.IH [OF this] Cons.prems(2) obtain s' where "cs_run evs s1 = Inr s'" by auto
  with s1 show ?case by simp
qed

lemma cs_run_append:
  "cs_run (evs @ evs') s = (case cs_run evs s of Inl e \<Rightarrow> Inl e | Inr s1 \<Rightarrow> cs_run evs' s1)"
  by (induction evs arbitrary: s) (simp_all split: sum.splits)

text \<open>A response that matches no outstanding query changes nothing.\<close>

lemma HandleExchangeResponse_rejected:
  assumes "m_queries s (m_uuid s, sender) = None
           \<or> (\<exists>k challenge. m_queries s (m_uuid s, sender) = Some (k, challenge)
                 \<and> k \<noteq> erm_response msg)"
    and "HandleExchangeResponse now msg sender s = Inr s'"
  shows "s' = s"
proof (cases "erm_sendtime msg")
  case None
  then have "HandleExchangeResponse now msg sender s = Inl BadTimeString"
    by (simp add: HandleExchangeResponse_def)
  with assms(2) show ?thesis by simp
next
  case (Some resp)
  from assms(1) have "HandleExchangeResponse now msg sender s = Inr s"
  proof
    assume "m_queries s (m_uuid s, sender) = None"
    then show ?thesis using Some by (simp add: HandleExchangeResponse_def)
  next
    assume "\<exists>k challenge. m_queries s (m_uuid s, sender) = Some (k, challenge)
                 \<and> k \<noteq> erm_response msg"
    then obtain k challenge where "m_queries s (m_uuid s, sender) = Some (k, challenge)"
      "k \<noteq> erm_response msg" by blast
    then show ?thesis using Some by (simp add: HandleExchangeResponse_def)
  qed
  with assms(2) show ?thesis by simp
qed

text \<open>
  Claim C9: after construction and after every \<open>Exchange\<close> round and every handled
  exchange or response message (every state a run reaches), the pair of this node with
  itself has offset 0, skew 0 and weight 1, and \<open>GetWeight\<close> returns 1 for it, without
  the factor for aging.
\<close>

theorem self_pair_invariant:
  assumes "cs_run evs (CClockSynchronizer_new uuid k0 t0) = Inr s"
  shows "m_uuid s = uuid
       \<and> map_of (m_offsets s) (uuid, uuid) = Some 0
       \<and> m_skews s (uuid, uuid) = Some 0
       \<and> (\<exists>set_at. m_weights s (uuid, uuid) = Some (1, set_at))
       \<and> GetWeight s (uuid, uuid) = Inr 1"
proof -
  from cs_run_inv [OF CClockSynchronizer_new_inv assms]
  have "cs_inv s" and u: "m_uuid s = uuid" by simp_all
  then have "self_sane s" by (simp add: cs_inv_def)
  with u show ?thesis by (simp add: self_sane_def GetWeight_def)
qed

text \<open>Claim C9 at the run \<open>round_trip\<close> of node \<open>A\<close>.\<close>

theorem self_pair_invariant_witness:
  "\<exists>s. cs_run round_trip node_A = Inr s
       \<and> m_uuid s = ''A''
       \<and> map_of (m_offsets s) (''A'', ''A'') = Some 0
       \<and> m_skews s (''A'', ''A'') = Some 0
       \<and> (\<exists>set_at. m_weights s (''A'', ''A'') = Some (1, set_at))
       \<and> GetWeight s (''A'', ''A'') = Inr 1"
proof -
  have "list_all readable round_trip"
    by (simp add: round_trip_def first_round_def reply_B_def)
  with cs_run_total [OF CClockSynchronizer_new_inv, of round_trip "''A''" 0 0]
  obtain s where run: "cs_run round_trip (CClockSynchronizer_new ''A'' 0 0) = Inr s" by blast
  from self_pair_invariant [OF run] run show ?thesis
    unfolding node_A_def by blast
qed

text \<open>
  Claim C8: in every state a run reaches, hence after every call of
  \<open>HandleExchangeResponse\<close>, the history of responses of every peer has an even length
  of at most \<open>2 \<cdot> MAX_REGRESSION_ENTRIES = 400\<close>. A response that answers the outstanding
  query of its sender appends exactly two samples, \<open>(response, challenge)\<close> and
  \<open>(response, now)\<close>, and beyond the bound exactly the two oldest samples are dropped;
  a response that matches no outstanding query changes nothing.
\<close>

theorem response_history_bounded:
  assumes "cs_run evs (CClockSynchronizer_new uuid k0 t0) = Inr s"
  shows "(\<forall>p l. m_responses s (uuid, p) = Some l \<longrightarrow>
            even (length l) \<and> length l \<le> 2 * MAX_REGRESSION_ENTRIES)
       \<and> (\<forall>now msg sender k challenge resp.
            m_queries s (uuid, sender) = Some (k, challenge) \<and> erm_response msg = k
            \<and> erm_sendtime msg = Some resp \<longrightarrow>
            (\<exists>s'. HandleExchangeResponse now msg sender s = Inr s'
                 \<and> m_responses s' =
                     (m_responses s)((uuid, sender) \<mapsto>
                       (let l = (case m_responses s (uuid, sender) of None \<Rightarrow> [] | Some l \<Rightarrow> l)
                                @ [(resp, challenge), (resp, now)]
                        in if length l > 2 * MAX_REGRESSION_ENTRIES then drop 2 l else l))))
       \<and> (\<forall>now msg sender s'.
            HandleExchangeResponse now msg sender s = Inr s'
            \<and> (m_queries s (uuid, sender) = None
               \<or> (\<exists>k challenge. m_queries s (uuid, sender) = Some (k, challenge)
                     \<and> k \<noteq> erm_response msg)) \<longrightarrow> s' = s)
       \<and> 2 * MAX_REGRESSION_ENTRIES = 400"
proof -
  from cs_run_inv [OF CClockSynchronizer_new_inv assms]
  have inv: "cs_inv s" and u: "m_uuid s = uuid" by simp_all
  have bounded: "\<forall>p l. m_responses s (uuid, p) = Some l \<longrightarrow>
            even (length l) \<and> length l \<le> 2 * MAX_REGRESSION_ENTRIES"
    using inv unfolding cs_inv_def responses_bounded_def by blast
  have accepted: "\<exists>s'. HandleExchangeResponse now msg sender s = Inr s'
                 \<and> m_responses s' =
                     (m_responses s)((uuid, sender) \<mapsto>
                       (let l = (case m_responses s (uuid, sender) of None \<Rightarrow> [] | Some l \<Rightarrow> l)
                                @ [(resp, challenge), (resp, now)]
                        in if length l > 2 * MAX_REGRESSION_ENTRIES then drop 2 l else l))"
    if "m_queries s (uuid, sender) = Some (k, challenge) \<and> erm_response msg = k
        \<and> erm_sendtime msg = Some resp"
    for now msg sender k challenge resp
  proof -
    from that have "m_queries s (m_uuid s, sender) = Some (k, challenge)" "erm_response msg = k"
      "erm_sendtime msg = Some resp" by (simp_all add: u)
    from HandleExchangeResponse_accepted [OF inv this, of now] show ?thesis
      unfolding u by blast
  qed
  have dropped: "s' = s"
    if "HandleExchangeResponse now msg sender s = Inr s'
        \<and> (m_queries s (uuid, sender) = None
           \<or> (\<exists>k challenge. m_queries s (uuid, sender) = Some (k, challenge)
                 \<and> k \<noteq> erm_response msg))"
    for now msg sender s'
    using that HandleExchangeResponse_rejected [of s sender msg now s'] unfolding u by blast
  have "2 * MAX_REGRESSION_ENTRIES = 400" by (simp add: MAX_REGRESSION_ENTRIES_def)
  with bounded accepted dropped show ?thesis by blast
qed

text \<open>
  Claim C8 at the run \<open>round_trip\<close>: after the first round the query to \<open>B\<close> is
  outstanding, and the response of \<open>B\<close> leaves a history of two samples.
\<close>

theorem response_history_bounded_witness:
  "\<exists>s1 s2. cs_run first_round node_A = Inr s1
       \<and> m_queries s1 (''A'', ''B'') = Some (0, 1000000)
       \<and> HandleExchangeResponse 1000300 reply_B ''B'' s1 = Inr s2
       \<and> cs_run round_trip node_A = Inr s2
       \<and> m_responses s2 (''A'', ''B'') = Some [(1000100, 1000000), (1000100, 1000300)]
       \<and> (\<exists>l. m_responses s2 (''A'', ''B'') = Some l \<and> even (length l) \<and> length l \<le> 400)"
proof -
  note new = CClockSynchronizer_new_inv [of "''A''" 0 0]
  from Exchange_inv [OF new, of False "[''A'', ''B'']" 1000000] obtain s1 where
    e1: "Exchange False [''A'', ''B''] 1000000 (CClockSynchronizer_new ''A'' 0 0) = Inr s1"
    and r1: "m_responses s1 = m_responses (CClockSynchronizer_new ''A'' 0 0)"
    and q1: "m_queries s1 = m_queries (fold (query_body 1000000)
               (query_order (m_uuid (CClockSynchronizer_new ''A'' 0 0)) [''A'', ''B''])
               (CClockSynchronizer_new ''A'' 0 0))"
    by blast
  have run1: "cs_run first_round (CClockSynchronizer_new ''A'' 0 0) = Inr s1"
    by (simp add: first_round_def e1)
  have q: "m_queries s1 (''A'', ''B'') = Some (0, 1000000)"
    unfolding q1
    by (simp add: query_order_def rotate_body_apply query_body_def CClockSynchronizer_new_def
          set_entry_def SetWeight_def Let_def)
  have r0: "m_responses s1 (''A'', ''B'') = None"
    unfolding r1 by (simp add: CClockSynchronizer_new_def set_entry_def SetWeight_def Let_def)
  have m: "erm_response reply_B = 0" "erm_sendtime reply_B = Some 1000100"
    by (simp_all add: reply_B_def)
  note step = response_history_bounded [OF run1, THEN conjunct2, THEN conjunct1, rule_format,
      where msg = reply_B and sender = "''B''" and now = 1000300, OF conjI [OF q conjI [OF m]]]
  then obtain s2 where
    h: "HandleExchangeResponse 1000300 reply_B ''B'' s1 = Inr s2"
    and r2: "m_responses s2 (''A'', ''B'') = Some [(1000100, 1000000), (1000100, 1000300)]"
    by (auto simp: r0 MAX_REGRESSION_ENTRIES_def Let_def)
  have run2: "cs_run round_trip (CClockSynchronizer_new ''A'' 0 0) = Inr s2"
    by (simp add: round_trip_def cs_run_append run1 h)
  from response_history_bounded [OF run2, THEN conjunct1, rule_format, OF r2]
  have "even (length [(1000100::int, 1000000::int), (1000100, 1000300)])
        \<and> length [(1000100::int, 1000000::int), (1000100, 1000300)] \<le> 400"
    by (simp add: MAX_REGRESSION_ENTRIES_def)
  with run1 q h run2 r2 show ?thesis
    unfolding node_A_def by blast
qed

section \<open>Properties of the load balancer\<close>

text \<open>
  Claim C4, as stated, says that a node in supply state that receives an accept message
  raises its SST setpoint to \<open>m_PStar + P_Migrate\<close>. The call of \<open>Step_PStar\<close> in this
  branch of \<open>HandleRead\<close> is commented out (this side is passive): node \<open>supplier\<close>
  learns the peer \<open>B\<close> and logs the migration; \<open>m_PStar\<close> stays 0 and the SST has
  no setting.
\<close>

theorem HandleRead_accept_counterexample:
  "m_Status supplier = SUPPLY
   \<and> msg_source accept_from_B \<noteq> lb_uuid supplier
   \<and> HandleRead accept_from_B supplier
       = Inr (supplier\<lparr>m_AllPeers := [''B'', ''A''], m_NoNodes := [''B''],
                        lb_warnings := [''Migrating power on request from: B'']\<rparr>)
   \<and> m_PStar (supplier\<lparr>m_AllPeers := [''B'', ''A''], m_NoNodes := [''B''],
                        lb_warnings := [''Migrating power on request from: B'']\<rparr>)
       \<noteq> m_PStar supplier + P_Migrate
   \<and> m_devices (supplier\<lparr>m_AllPeers := [''B'', ''A''], m_NoNodes := [''B''],
                        lb_warnings := [''Migrating power on request from: B'']\<rparr>) SST
       = [Map.empty]"
  by (simp add: HandleRead_def handle_draft_def draft_kinds_def add_peer_def supplier_def
        accept_from_B_def P_Migrate_def one_each_def Let_def)

text \<open>
  Claim C4, amended: when a node receives an accept message with a value from another
  peer, \<open>HandleRead\<close> changes neither \<open>m_PStar\<close> nor any device setting, and sends
  nothing; in supply state it logs the warning that power is migrated on request of the
  peer, in any other state the warning \<open>Unexpected Accept message\<close>.
\<close>

theorem HandleRead_accept_passive:
  assumes "msg_source msg \<noteq> lb_uuid s" and "msg_any msg \<noteq> Some ''PeerList''"
    and "msg_lb msg = Some ''accept''" and "msg_lb_value msg = Some val"
  shows "\<exists>s'. HandleRead msg s = Inr s'
           \<and> m_PStar s' = m_PStar s \<and> m_devices s' = m_devices s
           \<and> m_Status s' = m_Status s \<and> lb_sent s' = lb_sent s
           \<and> lb_warnings s' = lb_warnings s
               @ [if m_Status s = SUPPLY
                  then ''Migrating power on request from: '' @ msg_source msg
                  else ''Unexpected Accept message'']"
  using assms
  by (simp add: HandleRead_def handle_draft_def draft_kinds_def add_peer_def Let_def)

text \<open>The amended claim C4 at node \<open>supplier\<close> and the accept message of \<open>B\<close>.\<close>

theorem HandleRead_accept_passive_witness:
  "msg_source accept_from_B \<noteq> lb_uuid supplier
   \<and> msg_any accept_from_B \<noteq> Some ''PeerList''
   \<and> msg_lb accept_from_B = Some ''accept''
   \<and> msg_lb_value accept_from_B = Some ''2''
   \<and> (\<exists>s'. HandleRead accept_from_B supplier = Inr s'
           \<and> m_PStar s' = 0 \<and> m_devices s' = m_devices supplier
           \<and> m_Status s' = SUPPLY \<and> lb_sent s' = []
           \<and> lb_warnings s' = [''Migrating power on request from: B''])"
proof -
  have h: "msg_source accept_from_B \<noteq> lb_uuid supplier"
    "msg_any accept_from_B \<noteq> Some ''PeerList''"
    "msg_lb accept_from_B = Some ''accept''"
    "msg_lb_value accept_from_B = Some ''2''"
    by (simp_all add: accept_from_B_def supplier_def)
  have v: "m_PStar supplier = 0" "m_Status supplier = SUPPLY" "lb_sent supplier = []"
    "lb_warnings supplier = []" "msg_source accept_from_B = ''B''"
    by (simp_all add: accept_from_B_def supplier_def)
  from HandleRead_accept_passive [OF h] show ?thesis
    using h by (simp add: v)
qed

text \<open>
  Claim C5, as stated, says that a \<open>Set\<close> is skipped with a warning when no device of
  the type is registered. Neither the constructor nor \<open>Step_PStar\<close> looks at the
  container before it calls \<open>front()\<close>: with no device registered, neither returns a
  state.
\<close>

theorem actuation_unguarded_counterexample:
  "no_devices DESD = [] \<and> no_devices SST = []
   \<and> lbAgent_new ''A'' SUPPLY 0 no_devices = Inl EmptyContainerFront
   \<and> Step_PStar (supplier\<lparr>m_devices := no_devices\<rparr>) = Inl EmptyContainerFront
   \<and> lbAgent_new ''A'' SUPPLY 0 no_devices \<noteq> Inr (supplier\<lparr>m_devices := no_devices\<rparr>)"
  by (simp add: lbAgent_new_def Step_PStar_def front_Set_def no_devices_def supplier_def Let_def)

text \<open>
  Claim C5, amended: the actuation paths of the load balancer issue their \<open>Set\<close> on the
  first registered device of the type, without a check and without a warning. With a DESD
  and a DG registered, the constructor sets \<open>onOffSwitch\<close> to 0 on the first DESD and to
  1 on the first DG. With an SST registered, \<open>Step_PStar\<close> moves \<open>m_PStar\<close> by
  \<open>P_Migrate = 1\<close> (up in supply state, down in demand state) and sets \<open>level\<close> of the
  first SST to it. Only in normal state does \<open>Step_PStar\<close> skip the \<open>Set\<close>, with the
  warning that the migration is aborted. On an empty container \<open>front()\<close> is called all
  the same, and the operation does not return a state.
\<close>

theorem actuation_unguarded:
  "(devs DESD = d # ds \<and> devs DG = g # gs \<longrightarrow>
      lbAgent_new uuid status0 demand0 devs =
        Inr \<lparr>lb_uuid = uuid, m_AllPeers = [uuid], m_HiNodes = [], m_NoNodes = [],
             m_LoNodes = [], m_Leader = uuid, m_Status = status0, m_DemandVal = demand0,
             m_PStar = 0,
             m_devices = devs(DESD := d(''onOffSwitch'' \<mapsto> 0) # ds,
                              DG := g(''onOffSwitch'' \<mapsto> 1) # gs),
             lb_sent = [], lb_warnings = []\<rparr>)
   \<and> (m_Status s = SUPPLY \<and> m_devices s SST = t # ts \<longrightarrow>
        Step_PStar s =
          Inr (s\<lparr>m_PStar := m_PStar s + P_Migrate,
                 m_devices := (m_devices s)
                   (SST := t(''level'' \<mapsto> m_PStar s + P_Migrate) # ts)\<rparr>))
   \<and> (m_Status s = DEMAND \<and> m_devices s SST = t # ts \<longrightarrow>
        Step_PStar s =
          Inr (s\<lparr>m_PStar := m_PStar s - P_Migrate,
                 m_devices := (m_devices s)
                   (SST := t(''level'' \<mapsto> m_PStar s - P_Migrate) # ts)\<rparr>))
   \<and> (m_Status s = NORM \<longrightarrow>
        Step_PStar s =
          Inr (s\<lparr>lb_warnings := lb_warnings s
                    @ [''Power migration aborted due to state change '']\<rparr>))
   \<and> (devs DESD = [] \<or> devs DG = [] \<longrightarrow>
        lbAgent_new uuid status0 demand0 devs = Inl EmptyContainerFront)
   \<and> (m_Status s \<noteq> NORM \<and> m_devices s SST = [] \<longrightarrow> Step_PStar s = Inl EmptyContainerFront)
   \<and> P_Migrate = 1"
proof -
  have ctor: "lbAgent_new uuid status0 demand0 devs =
        Inr \<lparr>lb_uuid = uuid, m_AllPeers = [uuid], m_HiNodes = [], m_NoNodes = [],
             m_LoNodes = [], m_Leader = uuid, m_Status = status0, m_DemandVal = demand0,
             m_PStar = 0,
             m_devices = devs(DESD := d(''onOffSwitch'' \<mapsto> 0) # ds,
                              DG := g(''onOffSwitch'' \<mapsto> 1) # gs),
             lb_sent = [], lb_warnings = []\<rparr>"
    if "devs DESD = d # ds \<and> devs DG = g # gs"
    using that by (simp add: lbAgent_new_def front_Set_def Let_def)
  have ctor_empty: "lbAgent_new uuid status0 demand0 devs = Inl EmptyContainerFront"
    if "devs DESD = [] \<or> devs DG = []"
    using that by (auto simp: lbAgent_new_def front_Set_def Let_def split: list.splits)
  have step_empty: "Step_PStar s = Inl EmptyContainerFront"
    if "m_Status s \<noteq> NORM \<and> m_devices s SST = []"
    using that by (cases "m_Status s") (simp_all add: Step_PStar_def front_Set_def Let_def)
  show ?thesis
    using ctor ctor_empty step_empty
    by (simp add: Step_PStar_def front_Set_def Let_def P_Migrate_def)
qed

text \<open>The amended claim C5 at node \<open>supplier\<close>, with one device of each type and with none.\<close>

theorem actuation_unguarded_witness:
  "one_each DESD = [Map.empty] \<and> one_each DG = [Map.empty]
   \<and> lbAgent_new ''A'' SUPPLY 0 one_each = Inr supplier
   \<and> m_Status supplier = SUPPLY \<and> m_devices supplier SST = [Map.empty]
   \<and> Step_PStar supplier
       = Inr (supplier\<lparr>m_PStar := 1,
                m_devices := (m_devices supplier)(SST := [[''level'' \<mapsto> 1]])\<rparr>)
   \<and> Step_PStar (supplier\<lparr>m_Status := DEMAND\<rparr>)
       = Inr (supplier\<lparr>m_Status := DEMAND, m_PStar := - 1,
                m_devices := (m_devices supplier)(SST := [[''level'' \<mapsto> - 1]])\<rparr>)
   \<and> Step_PStar (supplier\<lparr>m_Status := NORM\<rparr>)
       = Inr (supplier\<lparr>m_Status := NORM,
                lb_warnings := [''Power migration aborted due to state change '']\<rparr>)
   \<and> lbAgent_new ''A'' SUPPLY 0 no_devices = Inl EmptyContainerFront
   \<and> Step_PStar (supplier\<lparr>m_devices := no_devices\<rparr>) = Inl EmptyContainerFront"
proof -
  note a = actuation_unguarded
  have d: "one_each DESD = [Map.empty] \<and> one_each DG = [Map.empty]"
    by (simp add: one_each_def)
  have s: "m_Status supplier = SUPPLY \<and> m_devices supplier SST = [Map.empty]"
    by (simp add: supplier_def one_each_def)
  have w1: "lbAgent_new ''A'' SUPPLY 0 one_each = Inr supplier"
    using a [of one_each Map.empty "[]" Map.empty "[]" "''A''" SUPPLY 0, THEN conjunct1] d
    by (simp add: supplier_def)
  have w2: "Step_PStar supplier
       = Inr (supplier\<lparr>m_PStar := 1,
                m_devices := (m_devices supplier)(SST := [[''level'' \<mapsto> 1]])\<rparr>)"
    using a [of _ _ _ _ _ _ _ _ supplier Map.empty "[]", THEN conjunct2, THEN conjunct1] s
    by (simp add: supplier_def P_Migrate_def)
  have w3: "Step_PStar (supplier\<lparr>m_Status := DEMAND\<rparr>)
       = Inr (supplier\<lparr>m_Status := DEMAND, m_PStar := - 1,
                m_devices := (m_devices supplier)(SST := [[''level'' \<mapsto> - 1]])\<rparr>)"
    using a [of _ _ _ _ _ _ _ _ "supplier\<lparr>m_Status := DEMAND\<rparr>" Map.empty "[]",
             THEN conjunct2, THEN conjunct2, THEN conjunct1] s
    by (simp add: supplier_def P_Migrate_def)
  have w4: "Step_PStar (supplier\<lparr>m_Status := NORM\<rparr>)
       = Inr (supplier\<lparr>m_Status := NORM,
                lb_warnings := [''Power migration aborted due to state change '']\<rparr>)"
    using a [of _ _ _ _ _ _ _ _ "supplier\<lparr>m_Status := NORM\<rparr>",
             THEN conjunct2, THEN conjunct2, THEN conjunct2, THEN conjunct1]
    by (simp add: supplier_def)
  have w5: "lbAgent_new ''A'' SUPPLY 0 no_devices = Inl EmptyContainerFront"
    using a [of no_devices _ _ _ _ "''A''" SUPPLY 0, THEN conjunct2, THEN conjunct2,
             THEN conjunct2, THEN conjunct2, THEN conjunct1]
    by (simp add: no_devices_def)
  have w6: "Step_PStar (supplier\<lparr>m_devices := no_devices\<rparr>) = Inl EmptyContainerFront"
    using a [of _ _ _ _ _ _ _ _ "supplier\<lparr>m_devices := no_devices\<rparr>", THEN conjunct2,
             THEN conjunct2, THEN conjunct2, THEN conjunct2, THEN conjunct2, THEN conjunct1]
    by (simp add: no_devices_def supplier_def)
  from d s w1 w2 w3 w4 w5 w6 show ?thesis by (intro conjI) simp_all
qed

end
